theory Spec2Isabelle
  imports Complex_Main
begin

section \<open>The engine worker (the ffmpeg worker script)\<close>

text \<open>
  The worker script owns one \<open>FFmpeg\<close> instance and a module-level flag \<open>loaded\<close>.
  Its \<open>onmessage\<close> handler is modelled as a function from the request and the worker's
  state to the new state; everything the handler posts to the main thread is appended to
  the field \<open>posted\<close>. One handler invocation is modelled as running to completion before
  the next message is taken (the orchestrator awaits each reply before it sends the next
  request).

  A binary payload (\<open>ArrayBuffer\<close>, \<open>Uint8Array\<close>) is a list of bytes; an Isabelle
  \<open>char\<close> is one byte, so \<open>TextEncoder.encode\<close> of an ASCII string is the string itself.
\<close>

type_synonym bytes = string

record SegmentInput =
  name :: string
  data :: bytes

text \<open>
  A request is the posted JavaScript object: the handler dispatches on its \<open>type\<close> string
  (field \<open>req_type\<close>) and reads only the fields of the branch it takes. \<open>runId\<close> and
  \<open>phase\<close> are optional (\<open>None\<close> is \<open>undefined\<close>).
\<close>

record WorkerRequest =
  req_type :: string
  segments :: "SegmentInput list"
  inputName :: string
  inputData :: bytes
  outputName :: string
  args :: "string list"
  runId :: "string option"
  phase :: "string option"

text \<open>
  The responses: \<open>Result outputName mimeType data runId phase\<close> and
  \<open>Error message runId phase\<close>.
\<close>

datatype WorkerResponse =
    Loaded
  | Progress string
  | Result string string bytes "string option" "string option"
  | Error string "string option" "string option"

datatype 'a outcome = Returns 'a | Throws string

datatype load_profile = Rich | Degraded

text \<open>
  What lies outside the script is a parameter: whether each \<open>toBlobURL\<close> fetch and each
  \<open>ffmpeg.load\<close> succeeds, and what \<open>ffmpeg.exec\<close> does. \<open>exec env fs argv\<close> gives the
  log lines ffmpeg prints, the file system it leaves, and the message it throws, if any
  (ffmpeg.wasm reports a failed command by its exit code, which the script ignores, so a
  failed command usually returns and leaves no output file).
\<close>

record engine_env =
  coreURL :: "unit outcome"
  wasmURL :: "unit outcome"
  workerURL :: "unit outcome"
  load_rich :: "unit outcome"
  load_degraded :: "unit outcome"
  exec :: "(string \<rightharpoonup> bytes) \<Rightarrow> string list \<Rightarrow> string list \<times> (string \<rightharpoonup> bytes) \<times> string option"

text \<open>
  The worker's state. \<open>files\<close> is the engine's in-memory file system; \<open>log_listeners\<close>
  counts the \<open>ffmpeg.on("log", ...)\<close> registrations; \<open>loads\<close> and \<open>execs\<close> record the calls
  of \<open>ffmpeg.load\<close> and \<open>ffmpeg.exec\<close> in order; \<open>posted\<close> is every message posted to the
  main thread, oldest first.
\<close>

record worker_state =
  loaded :: bool
  log_listeners :: nat
  files :: "string \<rightharpoonup> bytes"
  loads :: "load_profile list"
  execs :: "string list list"
  posted :: "WorkerResponse list"

definition post :: "WorkerResponse \<Rightarrow> worker_state \<Rightarrow> worker_state" where
  "post msg w = w\<lparr>posted := posted w @ [msg]\<rparr>"

text \<open>Sequencing of awaited calls: a throw skips the rest and keeps the state reached.\<close>

definition andThen ::
  "'a outcome \<times> worker_state \<Rightarrow> ('a \<Rightarrow> worker_state \<Rightarrow> 'b outcome \<times> worker_state)
    \<Rightarrow> 'b outcome \<times> worker_state" where
  "andThen r f = (case r of (Throws e, w) \<Rightarrow> (Throws e, w) | (Returns x, w) \<Rightarrow> f x w)"

definition ensureLoaded :: "engine_env \<Rightarrow> worker_state \<Rightarrow> unit outcome \<times> worker_state" where
  "ensureLoaded env w =
    (if loaded w then (Returns (), w)
     else
       let w1 = w\<lparr>log_listeners := Suc (log_listeners w)\<rparr> in
       (case coreURL env of
          Throws e \<Rightarrow> (Throws e, w1)
        | Returns _ \<Rightarrow>
       (case wasmURL env of
          Throws e \<Rightarrow> (Throws e, w1)
        | Returns _ \<Rightarrow>
          let (tried, w2) =
                (case workerURL env of
                   Throws e \<Rightarrow> (Throws e, w1)
                 | Returns _ \<Rightarrow> (load_rich env, w1\<lparr>loads := loads w1 @ [Rich]\<rparr>));
              (r, w3) =
                (case tried of
                   Returns _ \<Rightarrow> (Returns (), w2)
                 | Throws _ \<Rightarrow> (load_degraded env, w2\<lparr>loads := loads w2 @ [Degraded]\<rparr>))
          in (case r of
                Throws e \<Rightarrow> (Throws e, w3)
              | Returns _ \<Rightarrow> (Returns (), post Loaded (w3\<lparr>loaded := True\<rparr>))))))"

text \<open>
  The engine's file system is a finite map from names to contents: writing stores the
  content under the name, reading or deleting a name that is not there throws.
\<close>

definition writeFile :: "string \<Rightarrow> bytes \<Rightarrow> worker_state \<Rightarrow> unit outcome \<times> worker_state" where
  "writeFile n d w = (Returns (), w\<lparr>files := (files w)(n \<mapsto> d)\<rparr>)"

definition readFile :: "string \<Rightarrow> worker_state \<Rightarrow> bytes outcome \<times> worker_state" where
  "readFile n w =
    (case files w n of
       None \<Rightarrow> (Throws ''ErrnoError: FS error'', w)
     | Some d \<Rightarrow> (Returns d, w))"

definition deleteFile :: "string \<Rightarrow> worker_state \<Rightarrow> unit outcome \<times> worker_state" where
  "deleteFile n w =
    (case files w n of
       None \<Rightarrow> (Throws ''ErrnoError: FS error'', w)
     | Some _ \<Rightarrow> (Returns (), w\<lparr>files := (files w)(n := None)\<rparr>))"

text \<open>
  \<open>ffmpeg.exec\<close>: every log line goes to each registered log listener, which posts it as
  a \<open>progress\<close> message.
\<close>

definition progress_posts :: "nat \<Rightarrow> string list \<Rightarrow> WorkerResponse list" where
  "progress_posts listeners logs = concat (map (\<lambda>m. replicate listeners (Progress m)) logs)"

definition ffmpeg_exec :: "engine_env \<Rightarrow> string list \<Rightarrow> worker_state \<Rightarrow> unit outcome \<times> worker_state" where
  "ffmpeg_exec env argv w =
    (case exec env (files w) argv of
       (logs, fs, thrown) \<Rightarrow>
         let w1 = w\<lparr>files := fs, execs := execs w @ [argv],
                    posted := posted w @ progress_posts (log_listeners w) logs\<rparr>
         in (case thrown of None \<Rightarrow> (Returns (), w1) | Some e \<Rightarrow> (Throws e, w1)))"

fun writeSegments :: "SegmentInput list \<Rightarrow> worker_state \<Rightarrow> unit outcome \<times> worker_state" where
  "writeSegments [] w = (Returns (), w)"
| "writeSegments (seg # segs) w = andThen (writeFile (name seg) (data seg) w) (\<lambda>_. writeSegments segs)"

fun deleteSegments :: "SegmentInput list \<Rightarrow> worker_state \<Rightarrow> unit outcome \<times> worker_state" where
  "deleteSegments [] w = (Returns (), w)"
| "deleteSegments (seg # segs) w = andThen (deleteFile (name seg) w) (\<lambda>_. deleteSegments segs)"

fun join :: "string \<Rightarrow> string list \<Rightarrow> string" where
  "join sep [] = []"
| "join sep [x] = x"
| "join sep (x # y # ys) = x @ sep @ join sep (y # ys)"

definition manifest :: "SegmentInput list \<Rightarrow> string" where
  "manifest segs = join [CHR 0x0A] (map (\<lambda>s. ''file '' @ [CHR 0x27] @ name s @ [CHR 0x27]) segs)"

definition endsWith :: "string \<Rightarrow> string \<Rightarrow> bool" where
  "endsWith s suffix = (length suffix \<le> length s \<and> drop (length s - length suffix) s = suffix)"

definition concat_args :: "string \<Rightarrow> string list" where
  "concat_args out = [''-f'', ''concat'', ''-safe'', ''0'', ''-i'', ''list.txt'', ''-c'', ''copy'', out]"

definition concat_branch :: "engine_env \<Rightarrow> WorkerRequest \<Rightarrow> worker_state \<Rightarrow> unit outcome \<times> worker_state" where
  "concat_branch env req w =
    andThen (writeSegments (segments req) w) (\<lambda>_ w1.
    andThen (writeFile ''list.txt'' (manifest (segments req)) w1) (\<lambda>_ w2.
    andThen (ffmpeg_exec env (concat_args (outputName req)) w2) (\<lambda>_ w3.
    andThen (readFile (outputName req) w3) (\<lambda>out w4.
    andThen (deleteFile ''list.txt'' w4) (\<lambda>_ w5.
    andThen (deleteSegments (segments req) w5) (\<lambda>_ w6.
    andThen (deleteFile (outputName req) w6) (\<lambda>_ w7.
      (Returns (),
       post (Result (outputName req) ''video/webm'' out (runId req) (phase req)) w7))))))))"

definition reencode_args :: "WorkerRequest \<Rightarrow> string list" where
  "reencode_args req = [''-i'', inputName req] @ args req @ [outputName req]"

definition reencode_branch :: "engine_env \<Rightarrow> WorkerRequest \<Rightarrow> worker_state \<Rightarrow> unit outcome \<times> worker_state" where
  "reencode_branch env req w =
    andThen (writeFile (inputName req) (inputData req) w) (\<lambda>_ w1.
    andThen (ffmpeg_exec env (reencode_args req) w1) (\<lambda>_ w2.
    andThen (readFile (outputName req) w2) (\<lambda>out w3.
    andThen (deleteFile (inputName req) w3) (\<lambda>_ w4.
    andThen (deleteFile (outputName req) w4) (\<lambda>_ w5.
      let mimeType = (if endsWith (outputName req) ''.mp4'' then ''video/mp4''
                      else ''application/octet-stream'')
      in (Returns (),
          post (Result (outputName req) mimeType out (runId req) (phase req)) w5))))))"

definition onmessage_body :: "engine_env \<Rightarrow> WorkerRequest \<Rightarrow> worker_state \<Rightarrow> unit outcome \<times> worker_state" where
  "onmessage_body env req w =
    (if req_type req = ''load'' then ensureLoaded env w
     else andThen (ensureLoaded env w) (\<lambda>_ w1.
       if req_type req = ''concat'' then concat_branch env req w1
       else if req_type req = ''reencode'' then reencode_branch env req w1
       else (Returns (), w1)))"

text \<open>The handler: the \<open>try\<close> body, and the \<open>catch\<close> that posts the error message.\<close>

definition onmessage :: "engine_env \<Rightarrow> WorkerRequest \<Rightarrow> worker_state \<Rightarrow> worker_state" where
  "onmessage env req w =
    (case onmessage_body env req w of
       (Returns _, w') \<Rightarrow> w'
     | (Throws message, w') \<Rightarrow> post (Error message (runId req) (phase req)) w')"

section \<open>The application (App.tsx)\<close>

text \<open>
  A \<open>Blob\<close> is its bytes (its size is their number). A pending continuation is the
  \<open>resolve\<close>/\<open>reject\<close> pair of a promise; promises are numbered in the order in which they
  are created, and every call of \<open>resolve\<close> or \<open>reject\<close> is recorded in \<open>settlements\<close>,
  oldest first. The value a stage promise resolves to is \<open>(blob, mime, bytes)\<close>.
\<close>

type_synonym Blob = bytes

type_synonym promise = nat

type_synonym stage_output = "Blob \<times> string \<times> nat"

datatype settlement = Resolved promise stage_output | Rejected promise string

record OutputVideo =
  label :: string
  blob :: Blob
  url :: nat
  mime :: string

record Segment =
  seg_id :: nat
  seg_blob :: Blob
  seg_url :: nat

record RunResult =
  timestamp :: string
  r_runId :: string
  r_segmentCount :: nat
  r_segmentDurationMs :: nat
  r_gapMs :: nat
  segmentSizesBytes :: "nat list"
  mergedBytes :: nat
  mp4Bytes :: nat
  tRecordMs :: int
  tMergeMs :: int
  tMp4Ms :: int
  tTotalMs :: int

text \<open>
  The component's state, read and written as one record (React state and refs).
  \<open>pending\<close> is \<open>pendingRef.current\<close>; \<open>workerRef\<close> says whether the worker exists;
  \<open>outbox\<close> is every request posted to the worker, oldest first; \<open>urls\<close> counts the object
  URLs created (the next URL is the count); \<open>fileHandle\<close> is \<open>None\<close> when no log file is
  selected, and otherwise the records appended to the selected file so far;
  \<open>segments_shown\<close> is the state \<open>segments\<close>. The flag \<open>isRecording\<close>, which only the
  recorder and the display use, is left out.
\<close>

record app_state =
  pending :: "string \<rightharpoonup> promise"
  promises :: nat
  settlements :: "settlement list"
  workerRef :: bool
  workerLoaded :: bool
  isBusy :: bool
  logs :: string
  segments_shown :: "Segment list"
  rawMerged :: "OutputVideo option"
  mp4 :: "OutputVideo option"
  urls :: nat
  outbox :: "WorkerRequest list"
  fileHandle :: "RunResult list option"
  logFileName :: string

subsection \<open>The bounded log pane\<close>

text \<open>\<open>split_lines\<close> is \<open>String.split("\n")\<close>: the empty string splits into one empty line.\<close>

fun split_lines :: "string \<Rightarrow> string list" where
  "split_lines [] = [[]]"
| "split_lines (c # cs) =
     (if c = CHR 0x0A then [] # split_lines cs
      else (case split_lines cs of [] \<Rightarrow> [[c]] | l # ls \<Rightarrow> (c # l) # ls))"

definition appendLog :: "string \<Rightarrow> app_state \<Rightarrow> app_state" where
  "appendLog msg s =
    (let next = logs s @ msg @ [CHR 0x0A];
         lines = split_lines next
     in s\<lparr>logs := (if length lines > 350
                     then join [CHR 0x0A] (drop (length lines - 350) lines)
                     else next)\<rparr>)"

text \<open>\<open>uiLog\<close> prefixes the line with \<open>nowIso()\<close>, which is the parameter \<open>now\<close>.\<close>

definition uiLog :: "string \<Rightarrow> string \<Rightarrow> app_state \<Rightarrow> app_state" where
  "uiLog now line s = appendLog (now @ '' '' @ line) s"

subsection \<open>The handler of the worker's messages\<close>

text \<open>\<open>x ?? d\<close> replaces only \<open>undefined\<close>; a condition \<open>x ? .. : ..\<close> on an optional string
  also takes the empty string as false.\<close>

definition orElse :: "string option \<Rightarrow> string \<Rightarrow> string" where
  "orElse x d = (case x of None \<Rightarrow> d | Some v \<Rightarrow> v)"

definition truthy :: "string option \<Rightarrow> bool" where
  "truthy x = (case x of None \<Rightarrow> False | Some v \<Rightarrow> v \<noteq> [])"

definition key_of :: "string option \<Rightarrow> string option \<Rightarrow> string" where
  "key_of r p = orElse r ''no-run'' @ '':'' @ orElse p ''no-phase''"

definition error_line :: "string \<Rightarrow> string option \<Rightarrow> string option \<Rightarrow> string" where
  "error_line message r p =
     ''[ERROR]'' @
     (if truthy r
      then '' ('' @ orElse r [] @ (if truthy p then ''-'' @ orElse p [] else []) @ '')''
      else []) @
     '' '' @ message"

definition app_onmessage :: "string \<Rightarrow> WorkerResponse \<Rightarrow> app_state \<Rightarrow> app_state" where
  "app_onmessage now msg s =
    (case msg of
       Loaded \<Rightarrow> uiLog now ''[Worker] FFmpeg loaded.'' (s\<lparr>workerLoaded := True\<rparr>)
     | Progress message \<Rightarrow> appendLog message s
     | Error message r p \<Rightarrow>
         let key = key_of r p;
             s1 = (case pending s key of
                     Some c \<Rightarrow> s\<lparr>pending := (pending s)(key := None),
                                  settlements := settlements s @ [Rejected c message]\<rparr>
                   | None \<Rightarrow> s)
         in uiLog now (error_line message r p) s1
     | Result outName mimeType d r p \<Rightarrow>
         let bytes = length d;
             key = key_of r p
         in (case pending s key of
               Some c \<Rightarrow> s\<lparr>pending := (pending s)(key := None),
                            settlements := settlements s @ [Resolved c (d, mimeType, bytes)]\<rparr>
             | None \<Rightarrow>
                 let u = urls s;
                     s1 = s\<lparr>urls := Suc u\<rparr>
                 in if outName = ''merged.webm''
                    then s1\<lparr>rawMerged := Some \<lparr>label = ''Raw merged (stream copy)'',
                                                 blob = d, url = u, mime = mimeType\<rparr>\<rparr>
                    else if outName = ''reencoded.mp4''
                    then s1\<lparr>mp4 := Some \<lparr>label = ''Re-encoded MP4 (H.264)'',
                                           blob = d, url = u, mime = mimeType\<rparr>\<rparr>
                    else s1))"

subsection \<open>Submitting a stage\<close>

text \<open>Decimal digits of a number, as a template literal prints it.\<close>

fun show_nat :: "nat \<Rightarrow> string" where
  "show_nat n =
     (if n < 10 then [char_of (48 + n)]
      else show_nat (n div 10) @ [char_of (48 + n mod 10)])"

declare show_nat.simps [simp del]

definition show_int :: "int \<Rightarrow> string" where
  "show_int i = (if i < 0 then ''-'' @ show_nat (nat (- i)) else show_nat (nat i))"

text \<open>
  \<open>formatBytes\<close>. The loop divides by 1024 while the value is at least 1024 and a larger
  unit is left; dividing a size by a power of two is exact, so the value is the fraction
  \<open>bytes / d\<close> with \<open>d\<close> the power of 1024 reached. \<open>toFixed(2)\<close> prints the nearest
  multiple of a hundredth, a half upwards; for the unit \<open>B\<close> the value is the size itself.
\<close>

function formatBytes_loop :: "nat \<Rightarrow> nat \<Rightarrow> nat \<Rightarrow> nat \<times> nat" where
  "formatBytes_loop bytes d i =
     (if 1024 * d \<le> bytes \<and> i < 3 then formatBytes_loop bytes (1024 * d) (i + 1) else (d, i))"
  by pat_completeness auto
termination
  by (relation "measure (\<lambda>(bytes, d, i). 3 - i)") auto

declare formatBytes_loop.simps [simp del]

definition toFixed2 :: "nat \<Rightarrow> nat \<Rightarrow> string" where
  "toFixed2 bytes d =
     (let n = (200 * bytes + d) div (2 * d);
          cents = n mod 100
      in show_nat (n div 100) @ ''.'' @
         (if cents < 10 then ''0'' @ show_nat cents else show_nat cents))"

definition formatBytes :: "nat \<Rightarrow> string" where
  "formatBytes bytes =
     (case formatBytes_loop bytes 1 0 of
        (d, i) \<Rightarrow>
          (if i = 0 then show_nat bytes else toFixed2 bytes d) @ '' '' @
          [''B'', ''KB'', ''MB'', ''GB''] ! i)"

definition mp4Args :: "string list" where
  "mp4Args =
    [''-fflags'', ''+genpts'',
     ''-fps_mode'', ''cfr'',
     ''-r'', ''30'',
     ''-vf'', ''fps=30'',
     ''-c:v'', ''libx264'',
     ''-preset'', ''veryfast'',
     ''-crf'', ''28'',
     ''-pix_fmt'', ''yuv420p'',
     ''-movflags'', ''+faststart'',
     ''-an'']"

text \<open>
  Both functions throw when the worker is missing or not loaded; otherwise they create the
  promise, store its continuation under the key and post the request. The result is the
  promise the caller awaits. Fields of the request record that the posted object does not
  have are left empty.
\<close>

definition segmentInputs :: "Blob list \<Rightarrow> SegmentInput list" where
  "segmentInputs segBlobs =
     map (\<lambda>(idx, b). \<lparr>name = ''seg'' @ show_nat idx @ ''.webm'', data = b\<rparr>)
         (enumerate 0 segBlobs)"

definition workerConcat :: "string \<Rightarrow> Blob list \<Rightarrow> app_state \<Rightarrow> string + (promise \<times> app_state)" where
  "workerConcat rid segBlobs s =
    (if \<not> workerRef s \<or> \<not> workerLoaded s then Inl ''FFmpeg worker not loaded.''
     else
       let key = rid @ '':merge'';
           p = promises s
       in Inr (p, s\<lparr>promises := Suc p,
                     pending := (pending s)(key \<mapsto> p),
                     outbox := outbox s @
                       [\<lparr>req_type = ''concat'', segments = segmentInputs segBlobs,
                         inputName = [], inputData = [], outputName = ''merged.webm'',
                         args = [], runId = Some rid, phase = Some ''merge''\<rparr>]\<rparr>))"

definition workerReencodeMp4 :: "string \<Rightarrow> Blob \<Rightarrow> app_state \<Rightarrow> string + (promise \<times> app_state)" where
  "workerReencodeMp4 rid mergedBlob s =
    (if \<not> workerRef s \<or> \<not> workerLoaded s then Inl ''FFmpeg worker not loaded.''
     else
       let key = rid @ '':mp4'';
           p = promises s
       in Inr (p, s\<lparr>promises := Suc p,
                     pending := (pending s)(key \<mapsto> p),
                     outbox := outbox s @
                       [\<lparr>req_type = ''reencode'', segments = [],
                         inputName = ''merged.webm'', inputData = mergedBlob,
                         outputName = ''reencoded.mp4'',
                         args = mp4Args, runId = Some rid, phase = Some ''mp4''\<rparr>]\<rparr>))"

subsection \<open>The automated run\<close>

text \<open>
  The run's settings are constants of the component. What the run takes from outside is
  the parameter \<open>run_env\<close>: the engine's environment, the run id \<open>mkRunId()\<close> returns,
  the timestamp \<open>nowIso()\<close> returns, the successive readings of \<open>performance.now()\<close>
  (reading \<open>n\<close> is the run's \<open>n\<close>-th call, counted from 0), the outcome of the \<open>i\<close>-th
  call of \<open>recordOneSegment\<close> (\<open>Inl\<close> is a rejection, with \<open>String(e)\<close>), and the
  message \<open>appendToFile\<close> throws, if any.
\<close>

definition segmentCount :: nat where
  "segmentCount = 4"

definition segmentDurationMs :: nat where
  "segmentDurationMs = 5000"

definition gapMs :: nat where
  "gapMs = 250"

record run_env =
  engine :: engine_env
  mkRunId :: string
  nowIso :: string
  performance_now :: "nat \<Rightarrow> real"
  recordOneSegment :: "nat \<Rightarrow> string + Blob"
  appendToFile :: "string option"

text \<open>\<open>Math.round\<close> rounds to the nearest integer, a half upwards.\<close>

definition Math_round :: "real \<Rightarrow> int" where
  "Math_round x = \<lfloor>x + 1 / 2\<rfloor>"

text \<open>
  A clock reading is a double, and \<open>a - b\<close> on doubles is the exact difference rounded to
  the nearest double, a tie to the even significand. \<open>binade n x\<close> is the power of two
  with \<open>binade n x \<le> x < 2 * binade n x\<close> for a positive \<open>x\<close>, found by halving or
  doubling at most \<open>n\<close> times (2100 steps reach every double); \<open>ulp a\<close> is the spacing of
  the doubles around \<open>a\<close>, with a significand of 53 bits; \<open>rne\<close> rounds to the nearest
  integer, a half to the even one. The difference of two doubles that is smaller than the
  smallest normal double is a double itself, and \<open>double_round\<close> leaves it as it is.
  Readings are milliseconds since the time origin of the page; a difference beyond the
  largest double, which the machine turns into an infinity, does not occur and is not
  modelled.
\<close>

definition rne :: "real \<Rightarrow> int" where
  "rne y =
     (let f = \<lfloor>y\<rfloor>;
          d = y - of_int f
      in if d < 1 / 2 then f
         else if 1 / 2 < d then f + 1
         else if even f then f else f + 1)"

fun binade :: "nat \<Rightarrow> real \<Rightarrow> real" where
  "binade 0 x = 1"
| "binade (Suc n) x =
     (if 2 \<le> x then 2 * binade n (x / 2)
      else if x < 1 then binade n (2 * x) / 2
      else 1)"

definition ulp :: "real \<Rightarrow> real" where
  "ulp a = binade 2100 a / 2 ^ 52"

definition double_round :: "real \<Rightarrow> real" where
  "double_round x =
     (if x = 0 then 0
      else sgn x * (ulp \<bar>x\<bar> * of_int (rne (\<bar>x\<bar> / ulp \<bar>x\<bar>))))"

definition double_minus :: "real \<Rightarrow> real \<Rightarrow> real" where
  "double_minus a b = double_round (a - b)"

definition clearAll :: "app_state \<Rightarrow> app_state" where
  "clearAll s = s\<lparr>segments_shown := [], rawMerged := None, mp4 := None, logs := []\<rparr>"

text \<open>
  How a run ends: it is ignored while another one is busy, refused while the worker is not
  loaded, aborted by a failing stage, left waiting for a reply that never comes, or
  completed with its Result Record.
\<close>

datatype run_end =
    Ignored
  | NotLoaded
  | RecordingFailed
  | MergeFailed
  | Mp4Failed
  | Stalled
  | Completed RunResult

text \<open>
  The recording loop, from segment \<open>i\<close> with \<open>k\<close> segments to go. A rejected recording
  leaves the loop with the message and the state reached.
\<close>

fun recordSegments ::
  "run_env \<Rightarrow> string \<Rightarrow> nat \<Rightarrow> nat \<Rightarrow> Blob list \<times> nat list \<times> nat list \<times> app_state
    \<Rightarrow> (string \<times> app_state) + (Blob list \<times> nat list \<times> nat list \<times> app_state)" where
  "recordSegments env rid i 0 acc = Inr acc"
| "recordSegments env rid i (Suc k) (segBlobs, segSizes, segUrls, s) =
    (let s1 = uiLog (nowIso env)
                (''[RUN '' @ rid @ ''] Recording segment '' @ show_nat (i + 1) @ ''/'' @
                 show_nat segmentCount @ '' for '' @ show_nat segmentDurationMs @ ''ms...'') s
     in case recordOneSegment env i of
          Inl e \<Rightarrow> Inl (e, s1)
        | Inr b \<Rightarrow>
            let u = urls s1;
                s2 = uiLog (nowIso env)
                       (''[RUN '' @ rid @ ''] Segment '' @ show_nat (i + 1) @ '' size: '' @
                        show_nat (length b) @ '' bytes ('' @ formatBytes (length b) @ '')'')
                       (s1\<lparr>urls := Suc u\<rparr>)
            in recordSegments env rid (Suc i) k
                 (segBlobs @ [b], segSizes @ [length b], segUrls @ [u], s2))"

text \<open>
  The worker takes the request posted last, and the application handles each message the
  worker posts for it, in order.
\<close>

fun deliver :: "string \<Rightarrow> WorkerResponse list \<Rightarrow> app_state \<Rightarrow> app_state" where
  "deliver now [] s = s"
| "deliver now (m # ms) s = deliver now ms (app_onmessage now m s)"

definition exchange :: "run_env \<Rightarrow> app_state \<times> worker_state \<Rightarrow> app_state \<times> worker_state" where
  "exchange env sw =
    (case sw of (s, w) \<Rightarrow>
       let w' = onmessage (engine env) (last (outbox s)) w
       in (deliver (nowIso env) (drop (length (posted w)) (posted w')) s, w'))"

text \<open>Awaiting a promise: its first settlement counts; without one the caller waits.\<close>

datatype awaited = Fulfilled stage_output | RejectedWith string | Waiting

fun promise_of :: "settlement \<Rightarrow> promise" where
  "promise_of (Resolved c v) = c"
| "promise_of (Rejected c e) = c"

definition await :: "promise \<Rightarrow> app_state \<Rightarrow> awaited" where
  "await c s =
    (case find (\<lambda>ev. promise_of ev = c) (settlements s) of
       None \<Rightarrow> Waiting
     | Some (Resolved _ v) \<Rightarrow> Fulfilled v
     | Some (Rejected _ e) \<Rightarrow> RejectedWith e)"

text \<open>
  A stage call: \<open>submit\<close> is \<open>workerConcat\<close> or \<open>workerReencodeMp4\<close> with its arguments.
  The rejection of a stage promise is \<open>new Error(message)\<close>, and the error thrown by
  \<open>submit\<close> is an \<open>Error\<close> too; \<open>error_string\<close> is what \<open>String(e)\<close> prints for it.
\<close>

definition error_string :: "string \<Rightarrow> string" where
  "error_string message = (if message = [] then ''Error'' else ''Error: '' @ message)"

definition stage ::
  "run_env \<Rightarrow> (app_state \<Rightarrow> string + (promise \<times> app_state)) \<Rightarrow> app_state \<times> worker_state
    \<Rightarrow> awaited \<times> app_state \<times> worker_state" where
  "stage env submit sw =
    (case sw of (s, w) \<Rightarrow>
       (case submit s of
          Inl e \<Rightarrow> (RejectedWith e, s, w)
        | Inr (c, s1) \<Rightarrow>
            (case exchange env (s1, w) of (s2, w') \<Rightarrow> (await c s2, s2, w'))))"

definition finishRun ::
  "run_env \<Rightarrow> string \<Rightarrow> nat list \<Rightarrow> int \<Rightarrow> int \<Rightarrow> int \<Rightarrow> stage_output \<Rightarrow> stage_output
    \<Rightarrow> app_state \<Rightarrow> run_end \<times> app_state" where
  "finishRun env rid segSizes t_record t_merge t_mp4 merged mp4Out s =
    (case (merged, mp4Out) of ((mergedBlob, mergedMime, mergedSize), (mp4Blob, mp4Mime, mp4Size)) \<Rightarrow>
       let t_total = Math_round (double_minus (performance_now env 7) (performance_now env 0));
           result = \<lparr>timestamp = nowIso env, r_runId = rid, r_segmentCount = segmentCount,
                     r_segmentDurationMs = segmentDurationMs, r_gapMs = gapMs,
                     segmentSizesBytes = segSizes, mergedBytes = mergedSize, mp4Bytes = mp4Size,
                     tRecordMs = t_record, tMergeMs = t_merge, tMp4Ms = t_mp4,
                     tTotalMs = t_total\<rparr>;
           s1 = uiLog (nowIso env)
                  (''[RUN '' @ rid @ ''] Done. Total time: '' @ show_int t_total @ ''ms'') s;
           s2 = (case fileHandle s1 of
                   None \<Rightarrow>
                     uiLog (nowIso env)
                       (''[RUN '' @ rid @ ''] No log file selected; skipping file append.'') s1
                 | Some written \<Rightarrow>
                     (case appendToFile env of
                        None \<Rightarrow>
                          uiLog (nowIso env)
                            (''[RUN '' @ rid @ ''] Appended results to log file: '' @
                             logFileName s1)
                            (s1\<lparr>fileHandle := Some (written @ [result])\<rparr>)
                      | Some e \<Rightarrow>
                          uiLog (nowIso env)
                            (''[ERROR] Failed to append to log file: '' @ e) s1))
       in (Completed result, s2\<lparr>isBusy := False\<rparr>))"

definition mp4Stage ::
  "run_env \<Rightarrow> string \<Rightarrow> nat list \<Rightarrow> int \<Rightarrow> int \<Rightarrow> stage_output
    \<Rightarrow> app_state \<times> worker_state \<Rightarrow> run_end \<times> app_state \<times> worker_state" where
  "mp4Stage env rid segSizes t_record t_merge merged sw =
    (case sw of (s, w) \<Rightarrow>
       (case merged of (mergedBlob, mergedMime, mergedSize) \<Rightarrow>
          let s1 = uiLog (nowIso env)
                     (''[RUN '' @ rid @ ''] Merged size: '' @ show_nat mergedSize @ '' bytes ('' @
                      formatBytes mergedSize @ '') in '' @ show_int t_merge @ ''ms'') s;
              s2 = s1\<lparr>urls := Suc (urls s1),
                      rawMerged := Some \<lparr>label = ''Merged (stream copy)'', blob = mergedBlob,
                                          url = urls s1, mime = mergedMime\<rparr>\<rparr>;
              startMp4 = performance_now env 5;
              s3 = uiLog (nowIso env)
                     (''[RUN '' @ rid @ ''] Re-encoding MP4 (H.264/libx264)...'') s2
          in (case stage env (workerReencodeMp4 rid mergedBlob) (s3, w) of
                (Waiting, s4, w') \<Rightarrow> (Stalled, s4, w')
              | (RejectedWith e, s4, w') \<Rightarrow>
                  (Mp4Failed,
                   (uiLog (nowIso env)
                      (''[RUN '' @ rid @ ''] MP4 encode failed: '' @ error_string e) s4)
                     \<lparr>isBusy := False\<rparr>,
                   w')
              | (Fulfilled mp4Out, s4, w') \<Rightarrow>
                  (case mp4Out of (mp4Blob, mp4Mime, mp4Size) \<Rightarrow>
                     let t_mp4 = Math_round (double_minus (performance_now env 6) startMp4);
                         s5 = uiLog (nowIso env)
                                (''[RUN '' @ rid @ ''] MP4 size: '' @ show_nat mp4Size @
                                 '' bytes ('' @ formatBytes mp4Size @ '') in '' @
                                 show_int t_mp4 @ ''ms'') s4;
                         s6 = s5\<lparr>urls := Suc (urls s5),
                                 mp4 := Some \<lparr>label = ''Re-encoded MP4 (H.264)'', blob = mp4Blob,
                                               url = urls s5, mime = mp4Mime\<rparr>\<rparr>
                     in (case finishRun env rid segSizes t_record t_merge t_mp4 merged mp4Out s6 of
                           (e, s7) \<Rightarrow> (e, s7, w'))))))"

definition mergeStage ::
  "run_env \<Rightarrow> string \<Rightarrow> Blob list \<Rightarrow> nat list \<Rightarrow> nat list \<Rightarrow> int
    \<Rightarrow> app_state \<times> worker_state \<Rightarrow> run_end \<times> app_state \<times> worker_state" where
  "mergeStage env rid segBlobs segSizes segUrls t_record sw =
    (case sw of (s, w) \<Rightarrow>
       let s1 = s\<lparr>segments_shown :=
                    map (\<lambda>(idx, b, u). \<lparr>seg_id = idx + 1, seg_blob = b, seg_url = u\<rparr>)
                        (zip [0..<length segBlobs] (zip segBlobs segUrls))\<rparr>;
           startMerge = performance_now env 3
       in (case stage env (workerConcat rid segBlobs) (s1, w) of
             (Waiting, s2, w') \<Rightarrow> (Stalled, s2, w')
           | (RejectedWith e, s2, w') \<Rightarrow>
               (MergeFailed,
                (uiLog (nowIso env) (''[RUN '' @ rid @ ''] Merge failed: '' @ error_string e) s2)
                  \<lparr>isBusy := False\<rparr>,
                w')
           | (Fulfilled merged, s2, w') \<Rightarrow>
               mp4Stage env rid segSizes t_record
                 (Math_round (double_minus (performance_now env 4) startMerge)) merged (s2, w')))"

definition runAutomated ::
  "run_env \<Rightarrow> app_state \<times> worker_state \<Rightarrow> run_end \<times> app_state \<times> worker_state" where
  "runAutomated env sw =
    (case sw of (s, w) \<Rightarrow>
       if isBusy s then (Ignored, s, w)
       else if \<not> workerLoaded s
       then (NotLoaded, uiLog (nowIso env) ''[ERROR] FFmpeg worker is not loaded yet.'' s, w)
       else
         let s0 = clearAll (s\<lparr>isBusy := True\<rparr>);
             rid = mkRunId env;
             startTotal = performance_now env 0;
             s1 = uiLog (nowIso env)
                    (''[RUN '' @ rid @ ''] Starting automated test. segmentCount='' @
                     show_nat segmentCount @ '', segmentDurationMs='' @
                     show_nat segmentDurationMs @ '', gapMs='' @ show_nat gapMs) s0;
             startRecord = performance_now env 1
         in (case recordSegments env rid 0 segmentCount ([], [], [], s1) of
               Inl (e, s2) \<Rightarrow>
                 (RecordingFailed,
                  (uiLog (nowIso env) (''[RUN '' @ rid @ ''] Recording failed: '' @ e) s2)
                    \<lparr>isBusy := False\<rparr>,
                  w)
             | Inr (segBlobs, segSizes, segUrls, s2) \<Rightarrow>
                 mergeStage env rid segBlobs segSizes segUrls
                   (Math_round (double_minus (performance_now env 2) startRecord)) (s2, w)))"

section \<open>Observations on the worker\<close>




text \<open>A terminal message is a \<open>result\<close> or an \<open>error\<close>.\<close>

definition terminal :: "WorkerResponse \<Rightarrow> bool" where
  "terminal m = (case m of Result _ _ _ _ _ \<Rightarrow> True | Error _ _ _ \<Rightarrow> True | _ \<Rightarrow> False)"

text \<open>
  The names under which one operation stores Engine Artifacts: for a concat every segment
  input, the manifest and the output; for a reencode the input and the output.
  \<open>engine_args\<close> is the argument list of the operation's command, and \<open>staged_files\<close> the
  file system once the operation has written its inputs, that is, the one the command
  runs on.
\<close>

definition artifact_names :: "WorkerRequest \<Rightarrow> string list" where
  "artifact_names req =
    (if req_type req = ''concat''
     then map name (segments req) @ [''list.txt'', outputName req]
     else [inputName req, outputName req])"

definition engine_args :: "WorkerRequest \<Rightarrow> string list" where
  "engine_args req =
    (if req_type req = ''concat'' then concat_args (outputName req) else reencode_args req)"

definition staged_files :: "WorkerRequest \<Rightarrow> (string \<rightharpoonup> bytes) \<Rightarrow> (string \<rightharpoonup> bytes)" where
  "staged_files req fs =
    (if req_type req = ''concat''
     then (foldl (\<lambda>m seg. m(name seg \<mapsto> data seg)) fs (segments req))
            (''list.txt'' \<mapsto> manifest (segments req))
     else fs(inputName req \<mapsto> inputData req))"

subsection \<open>Sample inputs\<close>

text \<open>
  A worker that has not loaded yet; an engine whose command writes its output file; one
  whose command fails (it returns and leaves no output); a network on which only the
  worker resource of the richer profile is missing; the same with an engine that does not
  load from the degraded profile either; and a network that is down.
\<close>

definition fresh_worker :: worker_state where
  "fresh_worker = \<lparr>loaded = False, log_listeners = 0, files = Map.empty, loads = [],
                    execs = [], posted = []\<rparr>"

definition working_exec ::
  "(string \<rightharpoonup> bytes) \<Rightarrow> string list \<Rightarrow> string list \<times> (string \<rightharpoonup> bytes) \<times> string option" where
  "working_exec fs argv = ([''frame=1''], fs(last argv \<mapsto> ''OUT''), None)"

definition failing_exec ::
  "(string \<rightharpoonup> bytes) \<Rightarrow> string list \<Rightarrow> string list \<times> (string \<rightharpoonup> bytes) \<times> string option" where
  "failing_exec fs argv = ([''Conversion failed!''], fs, None)"

definition degraded_env :: engine_env where
  "degraded_env = \<lparr>coreURL = Returns (), wasmURL = Returns (),
                    workerURL = Throws ''Failed to fetch'', load_rich = Returns (),
                    load_degraded = Returns (), exec = working_exec\<rparr>"

definition broken_env :: engine_env where
  "broken_env = degraded_env\<lparr>exec := failing_exec\<rparr>"



definition offline_env :: engine_env where
  "offline_env = \<lparr>coreURL = Throws ''Failed to fetch'', wasmURL = Throws ''Failed to fetch'',
                   workerURL = Throws ''Failed to fetch'', load_rich = Throws ''failed to import'',
                   load_degraded = Throws ''failed to import'', exec = working_exec\<rparr>"

definition ready_worker :: worker_state where
  "ready_worker = \<lparr>loaded = True, log_listeners = 1, files = Map.empty, loads = [Rich],
                    execs = [], posted = [Loaded]\<rparr>"

definition concat_request :: WorkerRequest where
  "concat_request =
     \<lparr>req_type = ''concat'',
      segments = [\<lparr>name = ''seg0.webm'', data = ''A''\<rparr>, \<lparr>name = ''seg1.webm'', data = ''B''\<rparr>],
      inputName = [], inputData = [], outputName = ''merged.webm'', args = [],
      runId = Some ''r1'', phase = Some ''merge''\<rparr>"

definition reencode_request :: WorkerRequest where
  "reencode_request =
     \<lparr>req_type = ''reencode'', segments = [],
      inputName = ''merged.webm'', inputData = ''AB'', outputName = ''reencoded.mp4'',
      args = mp4Args, runId = Some ''r1'', phase = Some ''mp4''\<rparr>"

definition ping_request :: WorkerRequest where
  "ping_request =
     \<lparr>req_type = ''ping'', segments = [], inputName = [], inputData = [], outputName = [],
      args = [], runId = Some ''r1'', phase = Some ''merge''\<rparr>"

section \<open>Observations on the application\<close>

text \<open>The settlements of one promise, oldest first; and two sample states: an idle
  application, and one with a continuation waiting under the key \<open>r1:merge\<close>.\<close>

definition settlements_of :: "promise \<Rightarrow> app_state \<Rightarrow> settlement list" where
  "settlements_of c s = filter (\<lambda>ev. promise_of ev = c) (settlements s)"

definition idle_app :: app_state where
  "idle_app = \<lparr>pending = Map.empty, promises = 0, settlements = [], workerRef = True,
                 workerLoaded = True, isBusy = False, logs = [], segments_shown = [],
                 rawMerged = None, mp4 = None, urls = 0, outbox = [], fileHandle = Some [],
                 logFileName = ''log.jsonl''\<rparr>"

definition waiting_app :: app_state where
  "waiting_app = idle_app\<lparr>pending := [''r1:merge'' \<mapsto> 0], promises := 1\<rparr>"

text \<open>
  \<open>quiet w w'\<close>: from \<open>w\<close> to \<open>w'\<close> the worker has posted no terminal message.
  \<open>answered req w r\<close>: the outcome \<open>r\<close> of a stage's handler body, begun in \<open>w\<close>, has
  either thrown without a terminal message or returned right after posting the result.
\<close>

definition quiet :: "worker_state \<Rightarrow> worker_state \<Rightarrow> bool" where
  "quiet w w' = (\<exists>pre. posted w' = posted w @ pre \<and> list_all (\<lambda>m. \<not> terminal m) pre)"

definition answered :: "WorkerRequest \<Rightarrow> worker_state \<Rightarrow> unit outcome \<times> worker_state \<Rightarrow> bool" where
  "answered req w r =
    (case r of
       (Throws e, w') \<Rightarrow> quiet w w'
     | (Returns _, w') \<Rightarrow>
         (\<exists>w7 mimeType out. quiet w w7 \<and>
            w' = post (Result (outputName req) mimeType out (runId req) (phase req)) w7))"

text \<open>The part of the application's state that the run's control flow depends on.\<close>

definition core ::
  "app_state \<Rightarrow> (string \<rightharpoonup> promise) \<times> nat \<times> settlement list \<times> bool \<times> bool \<times> bool
     \<times> WorkerRequest list \<times> RunResult list option" where
  "core s = (pending s, promises s, settlements s, workerRef s, workerLoaded s, isBusy s,
             outbox s, fileHandle s)"

text \<open>
  What can be observed of a run. \<open>recorded env\<close>: every recording of the run resolves.
  \<open>result_phases w w'\<close>: the phases of the \<open>result\<close> messages the worker has posted from
  \<open>w\<close> to \<open>w'\<close>, in order. \<open>persisted env r h\<close>: the log file \<open>h\<close> after the run has
  handed the record \<open>r\<close> to it. \<open>timed env r\<close>: the four timings of \<open>r\<close> are the rounded
  differences of the clock readings the run takes.
\<close>

definition recorded :: "run_env \<Rightarrow> bool" where
  "recorded env = list_all (\<lambda>i. \<not> isl (recordOneSegment env i)) [0..<segmentCount]"

fun phase_of_result :: "WorkerResponse \<Rightarrow> string option list" where
  "phase_of_result (Result outName mimeType d r p) = [p]"
| "phase_of_result m = []"

definition result_phases :: "worker_state \<Rightarrow> worker_state \<Rightarrow> string option list" where
  "result_phases w w' = concat (map phase_of_result (drop (length (posted w)) (posted w')))"

definition persisted :: "run_env \<Rightarrow> RunResult \<Rightarrow> RunResult list option \<Rightarrow> RunResult list option" where
  "persisted env r h =
    (case h of
       None \<Rightarrow> None
     | Some written \<Rightarrow>
         (case appendToFile env of None \<Rightarrow> Some (written @ [r]) | Some e \<Rightarrow> Some written))"

definition timed :: "run_env \<Rightarrow> RunResult \<Rightarrow> bool" where
  "timed env r =
    (tRecordMs r = Math_round (double_minus (performance_now env 2) (performance_now env 1))
     \<and> tMergeMs r = Math_round (double_minus (performance_now env 4) (performance_now env 3))
     \<and> tMp4Ms r = Math_round (double_minus (performance_now env 6) (performance_now env 5))
     \<and> tTotalMs r = Math_round (double_minus (performance_now env 7) (performance_now env 0)))"

text \<open>
  The requests a run posts, and the worker's state when the run has ended: untouched when
  a recording fails, after the merge request when the merge fails, and after both
  requests otherwise. The transcode request carries the data of the merge result.
\<close>

definition concatRequest :: "string \<Rightarrow> Blob list \<Rightarrow> WorkerRequest" where
  "concatRequest rid segBlobs =
     \<lparr>req_type = ''concat'', segments = segmentInputs segBlobs,
      inputName = [], inputData = [], outputName = ''merged.webm'',
      args = [], runId = Some rid, phase = Some ''merge''\<rparr>"

definition reencodeRequest :: "string \<Rightarrow> Blob \<Rightarrow> WorkerRequest" where
  "reencodeRequest rid mergedBlob =
     \<lparr>req_type = ''reencode'', segments = [],
      inputName = ''merged.webm'', inputData = mergedBlob,
      outputName = ''reencoded.mp4'',
      args = mp4Args, runId = Some rid, phase = Some ''mp4''\<rparr>"

fun result_data :: "WorkerResponse \<Rightarrow> bytes" where
  "result_data (Result outName mimeType d r p) = d"
| "result_data m = []"

definition recordedBlobs :: "run_env \<Rightarrow> nat \<Rightarrow> nat \<Rightarrow> Blob list" where
  "recordedBlobs env i k =
     map (\<lambda>j. case recordOneSegment env j of Inr b \<Rightarrow> b | Inl e \<Rightarrow> []) [i..<i + k]"

definition worker_after_stages :: "engine_env \<Rightarrow> string \<Rightarrow> Blob list \<Rightarrow> worker_state \<Rightarrow> worker_state" where
  "worker_after_stages eng rid segBlobs w =
    (let w1 = onmessage eng (concatRequest rid segBlobs) w
     in if phase_of_result (last (posted w1)) = [] then w1
        else onmessage eng (reencodeRequest rid (result_data (last (posted w1)))) w1)"

definition worker_after :: "run_env \<Rightarrow> worker_state \<Rightarrow> worker_state" where
  "worker_after env w =
    (if recorded env
     then worker_after_stages (engine env) (mkRunId env) (recordedBlobs env 0 segmentCount) w
     else w)"

text \<open>The record a run has completed with, if it has, and its four timings.\<close>

fun result_of :: "run_end \<Rightarrow> RunResult option" where
  "result_of (Completed r) = Some r"
| "result_of e = None"



definition sample_run :: run_env where
  "sample_run = \<lparr>engine = degraded_env, mkRunId = ''1700000000000-ab12'',
                   nowIso = ''2026-01-01T00:00:00.000Z'',
                   performance_now = (\<lambda>n. real n * 1000),
                   recordOneSegment = (\<lambda>i. Inr (replicate (i + 1) CHR ''x'')),
                   appendToFile = None\<rparr>"





text \<open>
  The transcode profile as the specification lists it: generate timestamps, constant
  frame rate, rate 30, the force-30fps filter, libx264 at CRF 28 with the yuv420p pixel
  format, the fast-start flag and audio removal.
\<close>

definition listed_profile :: "string list" where
  "listed_profile =
    [''-fflags'', ''+genpts'', ''-fps_mode'', ''cfr'', ''-r'', ''30'', ''-vf'', ''fps=30'',
     ''-c:v'', ''libx264'', ''-crf'', ''28'', ''-pix_fmt'', ''yuv420p'',
     ''-movflags'', ''+faststart'', ''-an'']"

text \<open>More sample runs: one on an engine whose command fails, one without a camera.\<close>

definition broken_run :: run_env where
  "broken_run = sample_run\<lparr>engine := broken_env\<rparr>"

definition no_camera_run :: run_env where
  "no_camera_run = sample_run\<lparr>recordOneSegment :=
     (\<lambda>i. if i = 2 then Inl ''NotAllowedError: Permission denied'' else Inr ''x'')\<rparr>"

section \<open>Properties of the worker\<close>

lemma andThen_Returns: "andThen (Returns x, w) f = f x w"
  by (simp add: andThen_def)

lemma andThen_Throws: "andThen (Throws e, w) f = (Throws e, w)"
  by (simp add: andThen_def)


lemma ensureLoaded_when_loaded: "loaded w \<Longrightarrow> ensureLoaded env w = (Returns (), w)"
  by (simp add: ensureLoaded_def)














lemma body_when_loaded:
  "loaded w \<Longrightarrow> onmessage_body env req w =
     (if req_type req = ''load'' then (Returns (), w)
      else if req_type req = ''concat'' then concat_branch env req w
      else if req_type req = ''reencode'' then reencode_branch env req w
      else (Returns (), w))"
  by (simp add: onmessage_body_def ensureLoaded_when_loaded andThen_Returns)



subsection \<open>Initialisation falls back to the degraded profile\<close>



lemma ensureLoaded_Returns_posts:
  "ensureLoaded env w = (Returns x, w1) \<Longrightarrow> filter terminal (posted w1) = filter terminal (posted w)"
  by (cases "workerURL env"; cases "load_rich env"; cases "load_degraded env")
     (auto simp: ensureLoaded_def post_def Let_def terminal_def split: if_splits outcome.splits)

lemma ensureLoaded_Throws_posts:
  "ensureLoaded env w = (Throws e, w1) \<Longrightarrow> posted w1 = posted w"
  by (cases "workerURL env"; cases "load_rich env"; cases "load_degraded env")
     (auto simp: ensureLoaded_def post_def Let_def split: if_splits outcome.splits)

subsection \<open>A request of an unknown type\<close>

text \<open>
  C10 (as amended): for a request whose type is none of \<open>load\<close>, \<open>concat\<close> and
  \<open>reencode\<close>, the handler only makes sure the engine is loaded. When that returns (the
  engine was loaded already, or lazy loading succeeds) the handler posts neither a
  \<open>result\<close> nor an \<open>error\<close>, so a caller awaiting a correlated reply is never settled.
  When lazy loading throws, the handler's \<open>catch\<close> posts one \<open>error\<close> that carries the
  request's \<open>runId\<close> and \<open>phase\<close>.
\<close>

theorem unknown_request_type:
  assumes "req_type req \<notin> {''load'', ''concat'', ''reencode''}"
  shows "case ensureLoaded env w of
           (Returns _, w1) \<Rightarrow>
             onmessage env req w = w1
             \<and> filter terminal (posted w1) = filter terminal (posted w)
         | (Throws e, w1) \<Rightarrow>
             posted w1 = posted w
             \<and> onmessage env req w = post (Error e (runId req) (phase req)) w1"
proof (cases "ensureLoaded env w")
  case (Pair out w1)
  show ?thesis
  proof (cases out)
    case (Returns x)
    with Pair assms show ?thesis
      by (simp add: onmessage_def onmessage_body_def andThen_def ensureLoaded_Returns_posts)
  next
    case (Throws e)
    with Pair assms show ?thesis
      by (simp add: onmessage_def onmessage_body_def andThen_def ensureLoaded_Throws_posts)
  qed
qed

theorem unknown_request_type_witness:
  "posted (onmessage degraded_env ping_request ready_worker) = [Loaded]
   \<and> posted (onmessage degraded_env ping_request fresh_worker) = [Loaded]
   \<and> posted (onmessage offline_env (ping_request\<lparr>runId := None, phase := None\<rparr>) fresh_worker)
       = [Error ''Failed to fetch'' None None]"
proof -
  have t: "req_type ping_request \<notin> {''load'', ''concat'', ''reencode''}"
    "req_type (ping_request\<lparr>runId := None, phase := None\<rparr>) \<notin> {''load'', ''concat'', ''reencode''}"
    by (simp_all add: ping_request_def)
  have e1: "ensureLoaded degraded_env ready_worker = (Returns (), ready_worker)"
    by (simp add: ensureLoaded_def ready_worker_def)
  have e2: "ensureLoaded degraded_env fresh_worker =
     (Returns (), \<lparr>loaded = True, log_listeners = 1, files = Map.empty, loads = [Degraded],
                    execs = [], posted = [Loaded]\<rparr>)"
    by (simp add: ensureLoaded_def fresh_worker_def degraded_env_def post_def)
  have e3: "ensureLoaded offline_env fresh_worker =
     (Throws ''Failed to fetch'', fresh_worker\<lparr>log_listeners := 1\<rparr>)"
    by (simp add: ensureLoaded_def fresh_worker_def offline_env_def)
  from unknown_request_type [OF t(1), of degraded_env ready_worker]
  have "onmessage degraded_env ping_request ready_worker = ready_worker"
    by (simp add: e1)
  then have a: "posted (onmessage degraded_env ping_request ready_worker) = [Loaded]"
    by (simp add: ready_worker_def)
  from unknown_request_type [OF t(1), of degraded_env fresh_worker]
  have b: "posted (onmessage degraded_env ping_request fresh_worker) = [Loaded]"
    by (simp add: e2)
  from unknown_request_type [OF t(2), of offline_env fresh_worker]
  have "onmessage offline_env (ping_request\<lparr>runId := None, phase := None\<rparr>) fresh_worker
          = post (Error ''Failed to fetch'' None None) (fresh_worker\<lparr>log_listeners := 1\<rparr>)"
    by (simp add: e3)
  then have c: "posted (onmessage offline_env (ping_request\<lparr>runId := None, phase := None\<rparr>)
                   fresh_worker) = [Error ''Failed to fetch'' None None]"
    by (simp add: post_def fresh_worker_def)
  from a b c show ?thesis by simp
qed

text \<open>
  The statement without the amendment fails: with the network down, a fresh worker answers
  a request of type \<open>ping\<close> with an \<open>error\<close> message.
\<close>

theorem unknown_request_type_counterexample:
  "posted (onmessage offline_env ping_request fresh_worker)
     = [Error ''Failed to fetch'' (Some ''r1'') (Some ''merge'')]"
  by (simp add: onmessage_def onmessage_body_def ensureLoaded_def andThen_Throws post_def
      offline_env_def ping_request_def fresh_worker_def)

lemma andThen_ReturnsE:
  assumes "andThen r f = (Returns y, w')"
  obtains x w1 where "r = (Returns x, w1)" and "f x w1 = (Returns y, w')"
proof (cases r)
  case (Pair out w1)
  with assms show ?thesis
    by (cases out) (auto simp: andThen_def intro: that)
qed

lemma deleteFile_Returns:
  "deleteFile n w = (Returns x, w') \<Longrightarrow> files w' = (files w)(n := None) \<and> posted w' = posted w"
  by (auto simp: deleteFile_def split: option.splits)

lemma deleteSegments_Returns:
  "deleteSegments segs w = (Returns x, w') \<Longrightarrow>
     posted w' = posted w \<and>
     (\<forall>n. files w' n = (if n \<in> name ` set segs then None else files w n))"
proof (induction segs arbitrary: w)
  case Nil
  then show ?case by simp
next
  case (Cons seg segs)
  from Cons.prems obtain u w1 where
    d: "deleteFile (name seg) w = (Returns u, w1)" and r: "deleteSegments segs w1 = (Returns x, w')"
    by (auto elim: andThen_ReturnsE)
  from Cons.IH [OF r] deleteFile_Returns [OF d] show ?case
    by auto
qed

lemma readFile_Returns: "readFile n w = (Returns d, w') \<Longrightarrow> w' = w \<and> files w n = Some d"
  by (auto simp: readFile_def split: option.splits)

lemma concat_branch_Returns:
  assumes "concat_branch env req w = (Returns x, w')"
  shows "(\<forall>n \<in> set (map name (segments req) @ [''list.txt'', outputName req]). files w' n = None)
       \<and> (\<exists>out. last (posted w') = Result (outputName req) ''video/webm'' out (runId req) (phase req))"
proof -
  from assms obtain w3 w4 out w5 w6 w7 u1 u2 u3 where
    rd: "readFile (outputName req) w3 = (Returns out, w4)"
    and d1: "deleteFile ''list.txt'' w4 = (Returns u1, w5)"
    and d2: "deleteSegments (segments req) w5 = (Returns u2, w6)"
    and d3: "deleteFile (outputName req) w6 = (Returns u3, w7)"
    and w': "w' = post (Result (outputName req) ''video/webm'' out (runId req) (phase req)) w7"
    unfolding concat_branch_def
    by (elim andThen_ReturnsE) simp
  have f7: "files w7 = (files w6)(outputName req := None)"
    using deleteFile_Returns [OF d3] by simp
  have f6: "\<forall>n. files w6 n = (if n \<in> name ` set (segments req) then None else files w5 n)"
    using deleteSegments_Returns [OF d2] by simp
  have f5: "files w5 = (files w4)(''list.txt'' := None)"
    using deleteFile_Returns [OF d1] by simp
  have "files w' = files w7" and "last (posted w') = Result (outputName req) ''video/webm'' out (runId req) (phase req)"
    by (simp_all add: w' post_def)
  with f7 f6 f5 show ?thesis
    by auto
qed

lemma reencode_branch_Returns:
  assumes "reencode_branch env req w = (Returns x, w')"
  shows "(\<forall>n \<in> set [inputName req, outputName req]. files w' n = None)
       \<and> (\<exists>out mime. last (posted w') = Result (outputName req) mime out (runId req) (phase req))"
proof -
  from assms obtain w3 w4 out w5 w6 u1 u2 where
    rd: "readFile (outputName req) w3 = (Returns out, w4)"
    and d1: "deleteFile (inputName req) w4 = (Returns u1, w5)"
    and d2: "deleteFile (outputName req) w5 = (Returns u2, w6)"
    and w': "w' = post (Result (outputName req)
                 (if endsWith (outputName req) ''.mp4'' then ''video/mp4'' else ''application/octet-stream'')
                 out (runId req) (phase req)) w6"
    unfolding reencode_branch_def Let_def
    by (elim andThen_ReturnsE) simp
  have f6: "files w6 = (files w5)(outputName req := None)"
    using deleteFile_Returns [OF d2] by simp
  have f5: "files w5 = (files w4)(inputName req := None)"
    using deleteFile_Returns [OF d1] by simp
  have "files w' = files w6" and "\<exists>mime. last (posted w') = Result (outputName req) mime out (runId req) (phase req)"
    by (simp_all add: w' post_def)
  with f6 f5 show ?thesis
    by auto
qed

lemma writeSegments_Returns:
  "writeSegments segs w =
     (Returns (), w\<lparr>files := foldl (\<lambda>m seg. m(name seg \<mapsto> data seg)) (files w) segs\<rparr>)"
proof (induction segs arbitrary: w)
  case Nil
  then show ?case by simp
next
  case (Cons seg segs)
  show ?case
    by (simp add: writeFile_def andThen_Returns Cons)
qed

lemma ffmpeg_exec_eq:
  "exec env (files w) argv = (msgs, fs, thrown) \<Longrightarrow>
   ffmpeg_exec env argv w =
     ((case thrown of None \<Rightarrow> Returns () | Some e \<Rightarrow> Throws e),
      w\<lparr>files := fs, execs := execs w @ [argv],
        posted := posted w @ progress_posts (log_listeners w) msgs\<rparr>)"
  by (cases thrown) (simp_all add: ffmpeg_exec_def)

lemma readFile_missing: "files w n = None \<Longrightarrow> readFile n w = (Throws ''ErrnoError: FS error'', w)"
  by (simp add: readFile_def)

lemma concat_branch_no_output:
  assumes e: "exec env (staged_files req (files w)) (engine_args req) = (msgs, fs, thrown)"
    and n: "thrown \<noteq> None \<or> fs (outputName req) = None"
    and c: "req_type req = ''concat''"
  shows "\<exists>e. fst (concat_branch env req w) = Throws e"
    and "files (snd (concat_branch env req w)) = fs"
proof -
  define w2 where "w2 = w\<lparr>files := staged_files req (files w)\<rparr>"
  define w3 where "w3 = w2\<lparr>files := fs, execs := execs w2 @ [engine_args req],
        posted := posted w2 @ progress_posts (log_listeners w2) msgs\<rparr>"
  have e2: "exec env (files w2) (engine_args req) = (msgs, fs, thrown)"
    using e by (simp add: w2_def)
  have x: "ffmpeg_exec env (concat_args (outputName req)) w2 =
     ((case thrown of None \<Rightarrow> Returns () | Some e \<Rightarrow> Throws e), w3)"
    using ffmpeg_exec_eq [OF e2] c by (simp add: w3_def engine_args_def)
  have f3: "files w3 = fs"
    by (simp add: w3_def)
  have b: "concat_branch env req w =
     andThen (ffmpeg_exec env (concat_args (outputName req)) w2) (\<lambda>_ w3.
       andThen (readFile (outputName req) w3) (\<lambda>out w4.
       andThen (deleteFile ''list.txt'' w4) (\<lambda>_ w5.
       andThen (deleteSegments (segments req) w5) (\<lambda>_ w6.
       andThen (deleteFile (outputName req) w6) (\<lambda>_ w7.
         (Returns (),
          post (Result (outputName req) ''video/webm'' out (runId req) (phase req)) w7))))))"
    unfolding concat_branch_def w2_def
    by (simp add: writeSegments_Returns andThen_Returns writeFile_def staged_files_def c)
  have "\<exists>e. concat_branch env req w = (Throws e, w3)"
  proof (cases thrown)
    case None
    with n have "files w3 (outputName req) = None"
      by (simp add: f3)
    then show ?thesis
      unfolding b x None by (simp add: andThen_Returns andThen_Throws readFile_missing)
  next
    case (Some m)
    then show ?thesis
      unfolding b x by (simp add: andThen_Throws)
  qed
  then show "\<exists>e. fst (concat_branch env req w) = Throws e"
    and "files (snd (concat_branch env req w)) = fs"
    using f3 by auto
qed

lemma reencode_branch_no_output:
  assumes e: "exec env (staged_files req (files w)) (engine_args req) = (msgs, fs, thrown)"
    and n: "thrown \<noteq> None \<or> fs (outputName req) = None"
    and c: "req_type req \<noteq> ''concat''"
  shows "\<exists>e. fst (reencode_branch env req w) = Throws e"
    and "files (snd (reencode_branch env req w)) = fs"
proof -
  define w2 where "w2 = w\<lparr>files := staged_files req (files w)\<rparr>"
  define w3 where "w3 = w2\<lparr>files := fs, execs := execs w2 @ [engine_args req],
        posted := posted w2 @ progress_posts (log_listeners w2) msgs\<rparr>"
  have e2: "exec env (files w2) (engine_args req) = (msgs, fs, thrown)"
    using e by (simp add: w2_def)
  have x: "ffmpeg_exec env (reencode_args req) w2 =
     ((case thrown of None \<Rightarrow> Returns () | Some e \<Rightarrow> Throws e), w3)"
    using ffmpeg_exec_eq [OF e2] c by (simp add: w3_def engine_args_def)
  have f3: "files w3 = fs"
    by (simp add: w3_def)
  have b: "reencode_branch env req w =
     andThen (ffmpeg_exec env (reencode_args req) w2) (\<lambda>_ w2.
       andThen (readFile (outputName req) w2) (\<lambda>out w3.
       andThen (deleteFile (inputName req) w3) (\<lambda>_ w4.
       andThen (deleteFile (outputName req) w4) (\<lambda>_ w5.
         let mimeType = (if endsWith (outputName req) ''.mp4'' then ''video/mp4''
                         else ''application/octet-stream'')
         in (Returns (),
             post (Result (outputName req) mimeType out (runId req) (phase req)) w5)))))"
    unfolding reencode_branch_def w2_def
    by (simp add: andThen_Returns writeFile_def staged_files_def c)
  have "\<exists>e. reencode_branch env req w = (Throws e, w3)"
  proof (cases thrown)
    case None
    with n have "files w3 (outputName req) = None"
      by (simp add: f3)
    then show ?thesis
      unfolding b x None by (simp add: andThen_Returns andThen_Throws readFile_missing)
  next
    case (Some m)
    then show ?thesis
      unfolding b x by (simp add: andThen_Throws)
  qed
  then show "\<exists>e. fst (reencode_branch env req w) = Throws e"
    and "files (snd (reencode_branch env req w)) = fs"
    using f3 by auto
qed

lemma onmessage_Throws:
  "onmessage_body env req w = (Throws e, w') \<Longrightarrow>
     files (onmessage env req w) = files w' \<and>
     last (posted (onmessage env req w)) = Error e (runId req) (phase req)"
  by (simp add: onmessage_def post_def)

lemma onmessage_Returns:
  "onmessage_body env req w = (Returns x, w') \<Longrightarrow> onmessage env req w = w'"
  by (simp add: onmessage_def)

subsection \<open>Engine Artifacts are deleted on the success path only\<close>

text \<open>
  C4 (as amended): when a concat or reencode request runs to its end, every Engine
  Artifact written for it (each segment input, the manifest, the stage input and the stage
  output) has been deleted from the engine's storage before the result is posted. A
  request that fails gets no cleanup: when the engine command throws or leaves no output
  file, the handler posts an \<open>error\<close> and the storage stays exactly as the command left
  it, with the files written for the stage still there.
\<close>

theorem cleanup_only_on_success:
  assumes "req_type req = ''concat'' \<or> req_type req = ''reencode''"
  shows "(\<forall>w'. onmessage_body env req w = (Returns (), w') \<longrightarrow>
            onmessage env req w = w'
          \<and> (\<forall>n \<in> set (artifact_names req). files w' n = None)
          \<and> (\<exists>mimeType out.
                last (posted w') = Result (outputName req) mimeType out (runId req) (phase req)))
       \<and> (\<forall>msgs fs thrown.
            loaded w
          \<and> exec env (staged_files req (files w)) (engine_args req) = (msgs, fs, thrown)
          \<and> (thrown \<noteq> None \<or> fs (outputName req) = None) \<longrightarrow>
            files (onmessage env req w) = fs
          \<and> (\<exists>e. last (posted (onmessage env req w)) = Error e (runId req) (phase req)))"
proof (intro conjI allI impI)
  fix w'
  assume b: "onmessage_body env req w = (Returns (), w')"
  show "onmessage env req w = w'"
    using b by (rule onmessage_Returns)
  from b obtain w1 where br: "(if req_type req = ''concat'' then concat_branch env req w1
      else reencode_branch env req w1) = (Returns (), w')"
    using assms unfolding onmessage_body_def
    by (auto elim!: andThen_ReturnsE split: if_splits)
  show "\<forall>n \<in> set (artifact_names req). files w' n = None"
    using br concat_branch_Returns [of env req w1 "()" w']
      reencode_branch_Returns [of env req w1 "()" w']
    by (auto simp: artifact_names_def split: if_splits)
  show "\<exists>mimeType out.
          last (posted w') = Result (outputName req) mimeType out (runId req) (phase req)"
    using br concat_branch_Returns [of env req w1 "()" w']
      reencode_branch_Returns [of env req w1 "()" w']
    by (auto split: if_splits)
next
  fix msgs fs thrown
  assume a: "loaded w
          \<and> exec env (staged_files req (files w)) (engine_args req) = (msgs, fs, thrown)
          \<and> (thrown \<noteq> None \<or> fs (outputName req) = None)"
  then have body: "onmessage_body env req w =
      (if req_type req = ''concat'' then concat_branch env req w else reencode_branch env req w)"
    using assms by (auto simp: body_when_loaded)
  obtain out w' where ow: "onmessage_body env req w = (out, w')"
    by (cases "onmessage_body env req w") auto
  have "\<exists>e. out = Throws e" and f: "files w' = fs"
    using a ow body concat_branch_no_output [of env req w msgs fs thrown]
      reencode_branch_no_output [of env req w msgs fs thrown]
    by (auto split: if_splits)
  then obtain e where "onmessage_body env req w = (Throws e, w')"
    using ow by auto
  from onmessage_Throws [OF this] f
  show "files (onmessage env req w) = fs"
    and "\<exists>e. last (posted (onmessage env req w)) = Error e (runId req) (phase req)"
    by auto
qed

theorem cleanup_only_on_success_witness:
  "files (onmessage degraded_env concat_request ready_worker) ''seg0.webm'' = None
   \<and> files (onmessage degraded_env concat_request ready_worker) ''seg1.webm'' = None
   \<and> files (onmessage degraded_env concat_request ready_worker) ''list.txt'' = None
   \<and> files (onmessage degraded_env concat_request ready_worker) ''merged.webm'' = None
   \<and> files (onmessage broken_env reencode_request ready_worker) ''reencoded.mp4'' = None
   \<and> files (onmessage broken_env reencode_request ready_worker) ''merged.webm'' = Some ''AB''"
proof -
  have c: "req_type concat_request = ''concat'' \<or> req_type concat_request = ''reencode''"
    and r: "req_type reencode_request = ''concat'' \<or> req_type reencode_request = ''reencode''"
    by (simp_all add: concat_request_def reencode_request_def)
  have "fst (onmessage_body degraded_env concat_request ready_worker) = Returns ()"
    by (simp add: onmessage_body_def ensureLoaded_def andThen_Returns andThen_Throws
        concat_branch_def concat_request_def writeFile_def readFile_def deleteFile_def
        ffmpeg_exec_def degraded_env_def working_exec_def concat_args_def ready_worker_def)
  then obtain w' where b: "onmessage_body degraded_env concat_request ready_worker = (Returns (), w')"
    by (cases "onmessage_body degraded_env concat_request ready_worker") auto
  from cleanup_only_on_success [OF c, of degraded_env ready_worker] b
  have "onmessage degraded_env concat_request ready_worker = w'"
    and "\<forall>n \<in> set (artifact_names concat_request). files w' n = None"
    by blast+
  then have 1: "\<forall>n \<in> set (artifact_names concat_request).
      files (onmessage degraded_env concat_request ready_worker) n = None"
    by simp
  have x: "exec broken_env (staged_files reencode_request (files ready_worker))
              (engine_args reencode_request)
           = ([''Conversion failed!''], staged_files reencode_request (files ready_worker), None)"
    by (simp add: broken_env_def failing_exec_def)
  have y: "staged_files reencode_request (files ready_worker) (outputName reencode_request) = None"
    by (simp add: staged_files_def reencode_request_def ready_worker_def)
  have l: "loaded ready_worker"
    by (simp add: ready_worker_def)
  from cleanup_only_on_success [OF r, of broken_env ready_worker] l x y
  have 2: "files (onmessage broken_env reencode_request ready_worker)
             = staged_files reencode_request (files ready_worker)"
    by blast
  show ?thesis
    using 1 unfolding 2
    by (simp add: artifact_names_def concat_request_def staged_files_def reencode_request_def
        ready_worker_def)
qed

text \<open>
  The statement without the amendment fails: a command that fails leaves the segment
  inputs and the manifest of a concat, and the input of a reencode, in the engine's storage.
\<close>

theorem cleanup_only_on_success_counterexample:
  "posted (onmessage broken_env concat_request ready_worker)
     = [Loaded, Progress ''Conversion failed!'',
        Error ''ErrnoError: FS error'' (Some ''r1'') (Some ''merge'')]
   \<and> files (onmessage broken_env concat_request ready_worker) ''seg0.webm'' = Some ''A''
   \<and> files (onmessage broken_env concat_request ready_worker) ''seg1.webm'' = Some ''B''
   \<and> files (onmessage broken_env concat_request ready_worker) ''list.txt''
       = Some (manifest (segments concat_request))
   \<and> posted (onmessage broken_env reencode_request ready_worker)
     = [Loaded, Progress ''Conversion failed!'',
        Error ''ErrnoError: FS error'' (Some ''r1'') (Some ''mp4'')]
   \<and> files (onmessage broken_env reencode_request ready_worker) ''merged.webm'' = Some ''AB''"
  by (simp add: onmessage_def onmessage_body_def ensureLoaded_def andThen_Returns andThen_Throws
      concat_branch_def reencode_branch_def reencode_args_def
      concat_request_def reencode_request_def writeFile_def readFile_def deleteFile_def
      ffmpeg_exec_def broken_env_def degraded_env_def failing_exec_def concat_args_def
      progress_posts_def post_def ready_worker_def)

section \<open>Properties of the application\<close>

lemma appendLog_fields [simp]:
  "pending (appendLog m s) = pending s"
  "promises (appendLog m s) = promises s"
  "settlements (appendLog m s) = settlements s"
  "workerRef (appendLog m s) = workerRef s"
  "workerLoaded (appendLog m s) = workerLoaded s"
  "isBusy (appendLog m s) = isBusy s"
  "segments_shown (appendLog m s) = segments_shown s"
  "rawMerged (appendLog m s) = rawMerged s"
  "mp4 (appendLog m s) = mp4 s"
  "urls (appendLog m s) = urls s"
  "outbox (appendLog m s) = outbox s"
  "fileHandle (appendLog m s) = fileHandle s"
  "logFileName (appendLog m s) = logFileName s"
  by (simp_all add: appendLog_def Let_def)

lemma uiLog_fields [simp]:
  "pending (uiLog t m s) = pending s"
  "promises (uiLog t m s) = promises s"
  "settlements (uiLog t m s) = settlements s"
  "workerRef (uiLog t m s) = workerRef s"
  "workerLoaded (uiLog t m s) = workerLoaded s"
  "isBusy (uiLog t m s) = isBusy s"
  "segments_shown (uiLog t m s) = segments_shown s"
  "rawMerged (uiLog t m s) = rawMerged s"
  "mp4 (uiLog t m s) = mp4 s"
  "urls (uiLog t m s) = urls s"
  "outbox (uiLog t m s) = outbox s"
  "fileHandle (uiLog t m s) = fileHandle s"
  "logFileName (uiLog t m s) = logFileName s"
  by (simp_all add: uiLog_def)

lemma settlements_of_uiLog [simp]: "settlements_of c (uiLog t m s) = settlements_of c s"
  by (simp add: settlements_of_def)

lemma settlements_of_appendLog [simp]: "settlements_of c (appendLog m s) = settlements_of c s"
  by (simp add: settlements_of_def)

text \<open>A continuation that is not stored is not settled by any message.\<close>

lemma unstored_step:
  assumes "c \<notin> ran (pending s)"
  shows "c \<notin> ran (pending (app_onmessage now m s))
       \<and> settlements_of c (app_onmessage now m s) = settlements_of c s"
proof (cases m)
  case Loaded
  with assms show ?thesis by (simp add: app_onmessage_def settlements_of_def)
next
  case (Progress x)
  with assms show ?thesis by (simp add: app_onmessage_def)
next
  case (Result outName mimeType d r p)
  show ?thesis
  proof (cases "pending s (key_of r p)")
    case None
    with Result assms show ?thesis
      by (simp add: app_onmessage_def Let_def settlements_of_def)
  next
    case (Some c')
    then have "c' \<noteq> c" using assms by (auto simp: ran_def)
    moreover have "c \<notin> ran ((pending s)(key_of r p := None))"
      using assms by (auto simp: ran_def split: if_splits)
    ultimately show ?thesis
      using Result Some by (simp add: app_onmessage_def Let_def settlements_of_def)
  qed
next
  case (Error message r p)
  show ?thesis
  proof (cases "pending s (key_of r p)")
    case None
    with Error assms show ?thesis
      by (simp add: app_onmessage_def Let_def)
  next
    case (Some c')
    then have "c' \<noteq> c" using assms by (auto simp: ran_def)
    moreover have "c \<notin> ran ((pending s)(key_of r p := None))"
      using assms by (auto simp: ran_def split: if_splits)
    ultimately show ?thesis
      using Error Some by (simp add: app_onmessage_def Let_def settlements_of_def)
  qed
qed

lemma unstored_deliver:
  "c \<notin> ran (pending s) \<Longrightarrow> settlements_of c (deliver now ms s) = settlements_of c s"
proof (induction ms arbitrary: s)
  case Nil
  then show ?case by simp
next
  case (Cons m ms)
  from unstored_step [OF Cons.prems, of now m] Cons.IH [of "app_onmessage now m s"]
  show ?case by simp
qed

subsection \<open>A waiter is settled exactly once\<close>

text \<open>
  C1: when a continuation \<open>c\<close> is pending under the key of \<open>(runId, phase)\<close> (and under
  that key only, as each registration creates a new promise), a \<open>result\<close> message
  carrying the key removes the continuation and resolves it, and an \<open>error\<close> message
  carrying the key removes it and rejects it: the settlement is appended, so it is not
  dropped. Whatever messages follow, with the same key or another, \<open>c\<close> is not settled
  again: its settlements stay the ones it had plus this one.
\<close>

theorem settle_exactly_once:
  assumes stored: "pending s (key_of r p) = Some c"
    and only: "\<forall>k. k \<noteq> key_of r p \<longrightarrow> pending s k \<noteq> Some c"
  shows "pending (app_onmessage now (Result outName mimeType d r p) s)
           = (pending s)(key_of r p := None)
       \<and> settlements (app_onmessage now (Result outName mimeType d r p) s)
           = settlements s @ [Resolved c (d, mimeType, length d)]
       \<and> (\<forall>later. settlements_of c
              (deliver now later (app_onmessage now (Result outName mimeType d r p) s))
            = settlements_of c s @ [Resolved c (d, mimeType, length d)])
       \<and> pending (app_onmessage now (Error message r p) s)
           = (pending s)(key_of r p := None)
       \<and> settlements (app_onmessage now (Error message r p) s)
           = settlements s @ [Rejected c message]
       \<and> (\<forall>later. settlements_of c
              (deliver now later (app_onmessage now (Error message r p) s))
            = settlements_of c s @ [Rejected c message])"
proof -
  let ?res = "app_onmessage now (Result outName mimeType d r p) s"
  let ?err = "app_onmessage now (Error message r p) s"
  have gone: "c \<notin> ran ((pending s)(key_of r p := None))"
    using only by (auto simp: ran_def split: if_splits)
  have p1: "pending ?res = (pending s)(key_of r p := None)"
    and s1: "settlements ?res = settlements s @ [Resolved c (d, mimeType, length d)]"
    using stored by (simp_all add: app_onmessage_def Let_def)
  have p2: "pending ?err = (pending s)(key_of r p := None)"
    and s2: "settlements ?err = settlements s @ [Rejected c message]"
    using stored by (simp_all add: app_onmessage_def Let_def)
  have "settlements_of c (deliver now later ?res)
          = settlements_of c s @ [Resolved c (d, mimeType, length d)]" for later
    using unstored_deliver [of c ?res now later] gone
    by (simp add: p1 settlements_of_def s1)
  moreover have "settlements_of c (deliver now later ?err)
          = settlements_of c s @ [Rejected c message]" for later
    using unstored_deliver [of c ?err now later] gone
    by (simp add: p2 settlements_of_def s2)
  ultimately show ?thesis
    using p1 s1 p2 s2 by simp
qed

subsection \<open>Messages without a waiter\<close>

text \<open>
  C3 (as amended): a \<open>result\<close> or \<open>error\<close> message whose key has no registered waiter
  settles nothing and leaves the pending continuations as they are. An orphan \<open>error\<close> is
  only logged. An orphan \<open>result\<close> is not logged: it takes the legacy path, which creates
  an object URL and sets the merged preview when the output is \<open>merged.webm\<close>, the MP4
  preview when it is \<open>reencoded.mp4\<close>, and nothing else otherwise.
\<close>

theorem orphan_event:
  assumes "pending s (key_of r p) = None"
  shows "app_onmessage now (Error message r p) s = uiLog now (error_line message r p) s
       \<and> pending (app_onmessage now (Error message r p) s) = pending s
       \<and> settlements (app_onmessage now (Error message r p) s) = settlements s
       \<and> app_onmessage now (Result outName mimeType d r p) s =
           (if outName = ''merged.webm''
            then s\<lparr>urls := Suc (urls s),
                   rawMerged := Some \<lparr>label = ''Raw merged (stream copy)'', blob = d,
                                       url = urls s, mime = mimeType\<rparr>\<rparr>
            else if outName = ''reencoded.mp4''
            then s\<lparr>urls := Suc (urls s),
                   mp4 := Some \<lparr>label = ''Re-encoded MP4 (H.264)'', blob = d,
                                 url = urls s, mime = mimeType\<rparr>\<rparr>
            else s\<lparr>urls := Suc (urls s)\<rparr>)
       \<and> pending (app_onmessage now (Result outName mimeType d r p) s) = pending s
       \<and> settlements (app_onmessage now (Result outName mimeType d r p) s) = settlements s
       \<and> logs (app_onmessage now (Result outName mimeType d r p) s) = logs s"
  using assms by (simp add: app_onmessage_def Let_def)

theorem orphan_event_witness:
  "logs (app_onmessage ''12:00'' (Error ''boom'' (Some ''X'') (Some ''merge'')) idle_app)
     = ''12:00 [ERROR] (X-merge) boom'' @ [CHR 0x0A]
   \<and> settlements (app_onmessage ''12:00'' (Error ''boom'' (Some ''X'') (Some ''merge'')) idle_app) = []
   \<and> app_onmessage ''12:00'' (Result ''other.bin'' ''video/webm'' ''OUT'' (Some ''X'') (Some ''merge''))
        idle_app = idle_app\<lparr>urls := 1\<rparr>"
proof -
  have h: "pending idle_app (key_of (Some ''X'') (Some ''merge'')) = None"
    by (simp add: idle_app_def)
  have l: "logs (uiLog ''12:00'' (error_line ''boom'' (Some ''X'') (Some ''merge'')) idle_app)
      = ''12:00 [ERROR] (X-merge) boom'' @ [CHR 0x0A]"
    by (simp add: uiLog_def appendLog_def Let_def error_line_def truthy_def orElse_def idle_app_def)
  have u: "urls idle_app = 0" "settlements idle_app = []"
    by (simp_all add: idle_app_def)
  from orphan_event [OF h, of "''12:00''" "''boom''" "''other.bin''" "''video/webm''" "''OUT''"]
  show ?thesis
    by (simp add: l u)
qed

text \<open>
  The statement without the amendment fails: an orphan \<open>result\<close> for \<open>merged.webm\<close>
  leaves the log as it was and sets the merged preview.
\<close>

theorem orphan_event_counterexample:
  "pending idle_app (key_of (Some ''X'') (Some ''merge'')) = None
   \<and> logs (app_onmessage ''12:00''
        (Result ''merged.webm'' ''video/webm'' ''OUT'' (Some ''X'') (Some ''merge'')) idle_app)
       = logs idle_app
   \<and> rawMerged idle_app = None
   \<and> rawMerged (app_onmessage ''12:00''
        (Result ''merged.webm'' ''video/webm'' ''OUT'' (Some ''X'') (Some ''merge'')) idle_app)
       = Some \<lparr>label = ''Raw merged (stream copy)'', blob = ''OUT'', url = 0,
                mime = ''video/webm''\<rparr>"
  by (simp add: app_onmessage_def Let_def idle_app_def key_of_def orElse_def)

lemma quiet_refl: "quiet w w"
  by (simp add: quiet_def)

lemma quiet_writeFile: "quiet w0 w \<Longrightarrow> quiet w0 (snd (writeFile n d w))"
  by (simp add: quiet_def writeFile_def)

lemma quiet_readFile: "quiet w0 w \<Longrightarrow> quiet w0 (snd (readFile n w))"
  by (simp add: quiet_def readFile_def split: option.splits)

lemma quiet_deleteFile: "quiet w0 w \<Longrightarrow> quiet w0 (snd (deleteFile n w))"
  by (simp add: quiet_def deleteFile_def split: option.splits)

lemma progress_not_terminal: "list_all (\<lambda>m. \<not> terminal m) (progress_posts k msgs)"
  by (auto simp: progress_posts_def terminal_def list_all_iff)

lemma quiet_ffmpeg_exec: "quiet w0 w \<Longrightarrow> quiet w0 (snd (ffmpeg_exec env argv w))"
proof -
  assume q: "quiet w0 w"
  obtain msgs fs thrown where e: "exec env (files w) argv = (msgs, fs, thrown)"
    by (cases "exec env (files w) argv") auto
  from q obtain pre where "posted w = posted w0 @ pre" and "list_all (\<lambda>m. \<not> terminal m) pre"
    by (auto simp: quiet_def)
  then have "posted (snd (ffmpeg_exec env argv w)) = posted w0 @ (pre @ progress_posts (log_listeners w) msgs)"
    and "list_all (\<lambda>m. \<not> terminal m) (pre @ progress_posts (log_listeners w) msgs)"
    by (cases thrown; simp add: ffmpeg_exec_def e progress_not_terminal)+
  then show ?thesis
    unfolding quiet_def by blast
qed

lemma andThen_quiet:
  assumes "quiet w0 (snd r)" and "\<And>x w. quiet w0 w \<Longrightarrow> quiet w0 (snd (f x w))"
  shows "quiet w0 (snd (andThen r f))"
proof (cases r)
  case (Pair out w)
  with assms show ?thesis
    by (cases out) (simp_all add: andThen_def)
qed

lemma quiet_writeSegments: "quiet w0 w \<Longrightarrow> quiet w0 (snd (writeSegments segs w))"
proof (induction segs arbitrary: w)
  case Nil
  then show ?case by simp
next
  case (Cons seg segs)
  show ?case
    unfolding writeSegments.simps
    by (rule andThen_quiet) (simp_all add: quiet_writeFile Cons)
qed

lemma quiet_deleteSegments: "quiet w0 w \<Longrightarrow> quiet w0 (snd (deleteSegments segs w))"
proof (induction segs arbitrary: w)
  case Nil
  then show ?case by simp
next
  case (Cons seg segs)
  show ?case
    unfolding deleteSegments.simps
    by (rule andThen_quiet) (simp_all add: quiet_deleteFile Cons)
qed

lemma quiet_ensureLoaded: "quiet w (snd (ensureLoaded env w))"
proof -
  have "posted (snd (ensureLoaded env w)) = posted w \<or>
        posted (snd (ensureLoaded env w)) = posted w @ [Loaded]"
    by (cases "workerURL env"; cases "load_rich env"; cases "load_degraded env")
       (auto simp: ensureLoaded_def post_def Let_def split: outcome.splits)
  then show ?thesis
    by (auto simp: quiet_def terminal_def)
qed

lemma quiet_trans: "quiet w0 w1 \<Longrightarrow> quiet w1 w2 \<Longrightarrow> quiet w0 w2"
  by (auto simp: quiet_def)

lemma andThen_answered:
  assumes "quiet w0 (snd r)" and "\<And>x w. quiet w0 w \<Longrightarrow> answered req w0 (f x w)"
  shows "answered req w0 (andThen r f)"
proof (cases r)
  case (Pair out w)
  with assms show ?thesis
    by (cases out) (simp_all add: andThen_def answered_def)
qed

lemma answered_post:
  "quiet w0 w \<Longrightarrow>
   answered req w0 (Returns (), post (Result (outputName req) mimeType out (runId req) (phase req)) w)"
  by (auto simp: answered_def)

lemmas quiet_steps = quiet_writeFile quiet_readFile quiet_deleteFile quiet_ffmpeg_exec
  quiet_writeSegments quiet_deleteSegments

lemma answered_concat_branch: "quiet w0 w \<Longrightarrow> answered req w0 (concat_branch env req w)"
  unfolding concat_branch_def
  by (intro andThen_answered answered_post) (simp_all add: quiet_steps)

lemma answered_reencode_branch: "quiet w0 w \<Longrightarrow> answered req w0 (reencode_branch env req w)"
  unfolding reencode_branch_def Let_def
  by (intro andThen_answered answered_post) (simp_all add: quiet_steps)

lemma answered_body:
  assumes "req_type req = ''concat'' \<or> req_type req = ''reencode''"
  shows "answered req w (onmessage_body env req w)"
proof -
  have "answered req w (andThen (ensureLoaded env w) (\<lambda>_ w1.
       if req_type req = ''concat'' then concat_branch env req w1
       else if req_type req = ''reencode'' then reencode_branch env req w1
       else (Returns (), w1)))"
    using assms
    by (intro andThen_answered quiet_ensureLoaded)
       (auto simp: answered_concat_branch answered_reencode_branch)
  then show ?thesis
    using assms by (auto simp: onmessage_body_def)
qed

text \<open>The worker answers a stage request with non-terminal messages and one terminal one.\<close>

lemma worker_answers:
  assumes "req_type req = ''concat'' \<or> req_type req = ''reencode''"
  shows "\<exists>pre t. posted (onmessage env req w) = posted w @ pre @ [t]
           \<and> list_all (\<lambda>m. \<not> terminal m) pre
           \<and> (case fst (onmessage_body env req w) of
                Returns _ \<Rightarrow> (\<exists>mimeType out.
                   t = Result (outputName req) mimeType out (runId req) (phase req))
              | Throws e \<Rightarrow> t = Error e (runId req) (phase req))"
proof (cases "onmessage_body env req w")
  case (Pair out w')
  note a = answered_body [OF assms, of w env, unfolded Pair]
  show ?thesis
  proof (cases out)
    case (Returns u)
    with a obtain w7 mimeType res pre where
      "posted w7 = posted w @ pre" "list_all (\<lambda>m. \<not> terminal m) pre"
      "w' = post (Result (outputName req) mimeType res (runId req) (phase req)) w7"
      by (auto simp: answered_def quiet_def)
    then show ?thesis
      using Pair Returns by (auto simp: onmessage_def post_def)
  next
    case (Throws e)
    with a obtain pre where
      "posted w' = posted w @ pre" "list_all (\<lambda>m. \<not> terminal m) pre"
      by (auto simp: answered_def quiet_def)
    then show ?thesis
      using Pair Throws by (auto simp: onmessage_def post_def)
  qed
qed

lemma core_uiLog [simp]: "core (uiLog t m s) = core s"
  by (simp add: core_def)

lemma core_appendLog [simp]: "core (appendLog m s) = core s"
  by (simp add: core_def)

lemma deliver_append: "deliver now (xs @ ys) s = deliver now ys (deliver now xs s)"
  by (induction xs arbitrary: s) simp_all

lemma nonterminal_step:
  "workerLoaded s \<Longrightarrow> \<not> terminal m \<Longrightarrow> core (app_onmessage now m s) = core s"
  by (cases m) (simp_all add: app_onmessage_def terminal_def core_def)

lemma deliver_nonterminal:
  "workerLoaded s \<Longrightarrow> list_all (\<lambda>m. \<not> terminal m) pre \<Longrightarrow> core (deliver now pre s) = core s"
proof (induction pre arbitrary: s)
  case Nil
  then show ?case by simp
next
  case (Cons m pre)
  then have c: "core (app_onmessage now m s) = core s"
    by (simp add: nonterminal_step)
  then have "workerLoaded (app_onmessage now m s)"
    using Cons.prems by (simp add: core_def)
  with Cons c show ?case by simp
qed

lemma result_step:
  "pending s (key_of r p) = Some c \<Longrightarrow>
   core (app_onmessage now (Result outName mimeType d r p) s)
     = core (s\<lparr>pending := (pending s)(key_of r p := None),
               settlements := settlements s @ [Resolved c (d, mimeType, length d)]\<rparr>)"
  by (simp add: app_onmessage_def Let_def core_def)

lemma error_step:
  "pending s (key_of r p) = Some c \<Longrightarrow>
   core (app_onmessage now (Error message r p) s)
     = core (s\<lparr>pending := (pending s)(key_of r p := None),
               settlements := settlements s @ [Rejected c message]\<rparr>)"
  by (simp add: app_onmessage_def Let_def core_def)

lemma find_fresh:
  "\<forall>ev \<in> set evs. promise_of ev \<noteq> c \<Longrightarrow> promise_of e = c \<Longrightarrow>
   find (\<lambda>ev. promise_of ev = c) (evs @ [e]) = Some e"
  by (induction evs) simp_all

lemma stage_settles:
  assumes sub: "submit s = Inr (c, s1)"
    and req: "last (outbox s1) = req"
    and kind: "req_type req = ''concat'' \<or> req_type req = ''reencode''"
    and key: "pending s1 (key_of (runId req) (phase req)) = Some c"
    and wl: "workerLoaded s1"
    and fresh: "\<forall>ev \<in> set (settlements s1). promise_of ev \<noteq> c"
  shows "\<exists>s2 pre t.
           posted (onmessage (engine env) req w) = posted w @ pre @ [t]
         \<and> list_all (\<lambda>m. \<not> terminal m) pre
         \<and> (case fst (onmessage_body (engine env) req w) of
              Returns _ \<Rightarrow>
                (\<exists>mimeType out.
                   t = Result (outputName req) mimeType out (runId req) (phase req)
                 \<and> stage env submit (s, w)
                     = (Fulfilled (out, mimeType, length out), s2, onmessage (engine env) req w)
                 \<and> core s2 = core (s1\<lparr>pending := (pending s1)(key_of (runId req) (phase req) := None),
                       settlements := settlements s1 @ [Resolved c (out, mimeType, length out)]\<rparr>))
            | Throws e \<Rightarrow>
                t = Error e (runId req) (phase req)
              \<and> stage env submit (s, w) = (RejectedWith e, s2, onmessage (engine env) req w)
              \<and> core s2 = core (s1\<lparr>pending := (pending s1)(key_of (runId req) (phase req) := None),
                    settlements := settlements s1 @ [Rejected c e]\<rparr>))"
proof -
  let ?w' = "onmessage (engine env) req w"
  from worker_answers [OF kind, of "engine env" w] obtain pre t where
    p: "posted ?w' = posted w @ pre @ [t]"
    and q: "list_all (\<lambda>m. \<not> terminal m) pre"
    and t: "case fst (onmessage_body (engine env) req w) of
                Returns _ \<Rightarrow> (\<exists>mimeType out.
                   t = Result (outputName req) mimeType out (runId req) (phase req))
              | Throws e \<Rightarrow> t = Error e (runId req) (phase req)"
    by blast
  define sq where "sq = deliver (nowIso env) pre s1"
  define s2 where "s2 = app_onmessage (nowIso env) t sq"
  have cq: "core sq = core s1"
    unfolding sq_def using wl q by (rule deliver_nonterminal)
  then have kq: "pending sq (key_of (runId req) (phase req)) = Some c"
    and stq: "settlements sq = settlements s1" and pq: "pending sq = pending s1"
    using key by (simp_all add: core_def)
  have ex: "exchange env (s1, w) = (s2, ?w')"
    by (simp add: exchange_def req p deliver_append s2_def sq_def Let_def)
  have st: "stage env submit (s, w) = (await c s2, s2, ?w')"
    by (simp add: stage_def sub ex)
  show ?thesis
  proof (cases "fst (onmessage_body (engine env) req w)")
    case (Returns u)
    with t obtain mimeType out where
      t': "t = Result (outputName req) mimeType out (runId req) (phase req)"
      by auto
    have c2: "core s2 = core (sq\<lparr>pending := (pending sq)(key_of (runId req) (phase req) := None),
               settlements := settlements sq @ [Resolved c (out, mimeType, length out)]\<rparr>)"
      unfolding s2_def t' using kq by (rule result_step)
    then have "settlements s2 = settlements s1 @ [Resolved c (out, mimeType, length out)]"
      by (simp add: core_def stq)
    then have "await c s2 = Fulfilled (out, mimeType, length out)"
      using find_fresh [OF fresh, of "Resolved c (out, mimeType, length out)"]
      by (simp add: await_def)
    moreover have "core s2 = core (s1\<lparr>pending := (pending s1)(key_of (runId req) (phase req) := None),
                       settlements := settlements s1 @ [Resolved c (out, mimeType, length out)]\<rparr>)"
      using c2 cq by (simp add: core_def)
    ultimately show ?thesis
      using p q t' st Returns by auto
  next
    case (Throws e)
    with t have t': "t = Error e (runId req) (phase req)"
      by simp
    have c2: "core s2 = core (sq\<lparr>pending := (pending sq)(key_of (runId req) (phase req) := None),
               settlements := settlements sq @ [Rejected c e]\<rparr>)"
      unfolding s2_def t' using kq by (rule error_step)
    then have "settlements s2 = settlements s1 @ [Rejected c e]"
      by (simp add: core_def stq)
    then have "await c s2 = RejectedWith e"
      using find_fresh [OF fresh, of "Rejected c e"]
      by (simp add: await_def)
    moreover have "core s2 = core (s1\<lparr>pending := (pending s1)(key_of (runId req) (phase req) := None),
                       settlements := settlements s1 @ [Rejected c e]\<rparr>)"
      using c2 cq by (simp add: core_def)
    ultimately show ?thesis
      using p q t' st Throws by auto
  qed
qed

lemma finishRun_summary:
  "\<exists>r s'. finishRun env rid zs tr tm tp merged mp4Out s = (Completed r, s')
     \<and> tRecordMs r = tr \<and> tMergeMs r = tm \<and> tMp4Ms r = tp
     \<and> tTotalMs r = Math_round (double_minus (performance_now env 7) (performance_now env 0))
     \<and> fileHandle s' = persisted env r (fileHandle s)
     \<and> \<not> isBusy s' \<and> outbox s' = outbox s"
  by (cases merged; cases mp4Out; cases "fileHandle s"; cases "appendToFile env")
     (simp_all add: finishRun_def Let_def persisted_def)

lemma phases_answer:
  "list_all (\<lambda>m. \<not> terminal m) pre \<Longrightarrow>
   concat (map phase_of_result (pre @ [t])) = phase_of_result t"
proof (induction pre)
  case Nil
  then show ?case by simp
next
  case (Cons m pre)
  then show ?case by (cases m) (simp_all add: terminal_def)
qed

lemma key_of_Some: "key_of (Some r) (Some p) = r @ '':'' @ p"
  by (simp add: key_of_def orElse_def)

lemma mp4Stage_summary:
  assumes wl: "workerLoaded s" and wr: "workerRef s"
    and fresh: "\<forall>ev \<in> set (settlements s). promise_of ev < promises s"
  shows "\<exists>e s' w' pre t req.
           mp4Stage env rid zs tr tm merged (s, w) = (e, s', w')
         \<and> req = reencodeRequest rid (fst merged) \<and> w' = onmessage (engine env) req w
         \<and> posted w' = posted w @ pre @ [t] \<and> list_all (\<lambda>m. \<not> terminal m) pre
         \<and> outbox s' = outbox s @ [req] \<and> phase req = Some ''mp4'' \<and> \<not> isBusy s'
         \<and> ((\<exists>r. e = Completed r \<and> phase_of_result t = [Some ''mp4'']
                 \<and> fileHandle s' = persisted env r (fileHandle s)
                 \<and> tRecordMs r = tr \<and> tMergeMs r = tm
                 \<and> tMp4Ms r = Math_round (double_minus (performance_now env 6) (performance_now env 5))
                 \<and> tTotalMs r = Math_round (double_minus (performance_now env 7) (performance_now env 0)))
            \<or> (e = Mp4Failed \<and> phase_of_result t = [] \<and> fileHandle s' = fileHandle s))"
proof -
  obtain mergedBlob mergedMime mergedSize where m: "merged = (mergedBlob, mergedMime, mergedSize)"
    by (cases merged) auto
  define s1 where "s1 = uiLog (nowIso env)
                     (''[RUN '' @ rid @ ''] Merged size: '' @ show_nat mergedSize @ '' bytes ('' @
                      formatBytes mergedSize @ '') in '' @ show_int tm @ ''ms'') s"
  define s2 where "s2 = s1\<lparr>urls := Suc (urls s1),
                      rawMerged := Some \<lparr>label = ''Merged (stream copy)'', blob = mergedBlob,
                                          url = urls s1, mime = mergedMime\<rparr>\<rparr>"
  define s3 where "s3 = uiLog (nowIso env)
                     (''[RUN '' @ rid @ ''] Re-encoding MP4 (H.264/libx264)...'') s2"
  define req where "req = reencodeRequest rid mergedBlob"
  note req_def = req_def [unfolded reencodeRequest_def]
  have rq: "req = reencodeRequest rid (fst merged)"
    by (simp add: req_def reencodeRequest_def m)
  define sr where "sr = s3\<lparr>promises := Suc (promises s3),
                     pending := (pending s3)(rid @ '':mp4'' \<mapsto> promises s3),
                     outbox := outbox s3 @ [req]\<rparr>"
  have c3: "core s3 = core s"
    by (simp add: s3_def s2_def s1_def core_def)
  have sub: "workerReencodeMp4 rid mergedBlob s3 = Inr (promises s, sr)"
    using c3 wl wr by (simp add: workerReencodeMp4_def Let_def sr_def req_def core_def)
  have "last (outbox sr) = req" and "req_type req = ''concat'' \<or> req_type req = ''reencode''"
    and "pending sr (key_of (runId req) (phase req)) = Some (promises s)"
    and "workerLoaded sr" and "\<forall>ev \<in> set (settlements sr). promise_of ev \<noteq> promises s"
    using c3 wl fresh by (auto simp: sr_def req_def key_of_Some core_def)
  from stage_settles [where submit = "workerReencodeMp4 rid mergedBlob" and s = s3
      and env = env and w = w, OF sub this] obtain s4 pre t where
    p: "posted (onmessage (engine env) req w) = posted w @ pre @ [t]"
    and q: "list_all (\<lambda>m. \<not> terminal m) pre"
    and t: "case fst (onmessage_body (engine env) req w) of
              Returns _ \<Rightarrow>
                (\<exists>mimeType out.
                   t = Result (outputName req) mimeType out (runId req) (phase req)
                 \<and> stage env (workerReencodeMp4 rid mergedBlob) (s3, w)
                     = (Fulfilled (out, mimeType, length out), s4, onmessage (engine env) req w)
                 \<and> core s4 = core (sr\<lparr>pending := (pending sr)(key_of (runId req) (phase req) := None),
                       settlements := settlements sr @ [Resolved (promises s) (out, mimeType, length out)]\<rparr>))
            | Throws e \<Rightarrow>
                t = Error e (runId req) (phase req)
              \<and> stage env (workerReencodeMp4 rid mergedBlob) (s3, w)
                   = (RejectedWith e, s4, onmessage (engine env) req w)
              \<and> core s4 = core (sr\<lparr>pending := (pending sr)(key_of (runId req) (phase req) := None),
                    settlements := settlements sr @ [Rejected (promises s) e]\<rparr>)"
    by blast
  show ?thesis
  proof (cases "fst (onmessage_body (engine env) req w)")
    case (Returns u)
    with t obtain mimeType out where
      t': "t = Result (outputName req) mimeType out (runId req) (phase req)"
      and st: "stage env (workerReencodeMp4 rid mergedBlob) (s3, w)
                     = (Fulfilled (out, mimeType, length out), s4, onmessage (engine env) req w)"
      and c4: "core s4 = core (sr\<lparr>pending := (pending sr)(key_of (runId req) (phase req) := None),
                       settlements := settlements sr @ [Resolved (promises s) (out, mimeType, length out)]\<rparr>)"
      by auto
    define s5 where "s5 = uiLog (nowIso env)
                                (''[RUN '' @ rid @ ''] MP4 size: '' @ show_nat (length out) @
                                 '' bytes ('' @ formatBytes (length out) @ '') in '' @
                                 show_int (Math_round (double_minus (performance_now env 6) (performance_now env 5))) @ ''ms'') s4"
    define s6 where "s6 = s5\<lparr>urls := Suc (urls s5),
                                 mp4 := Some \<lparr>label = ''Re-encoded MP4 (H.264)'', blob = out,
                                               url = urls s5, mime = mimeType\<rparr>\<rparr>"
    from finishRun_summary [of env rid zs tr tm
        "Math_round (double_minus (performance_now env 6) (performance_now env 5))" merged
        "(out, mimeType, length out)" s6]
    obtain r s7 where f: "finishRun env rid zs tr tm
        (Math_round (double_minus (performance_now env 6) (performance_now env 5))) merged
        (out, mimeType, length out) s6 = (Completed r, s7)"
      and r: "tRecordMs r = tr" "tMergeMs r = tm"
        "tMp4Ms r = Math_round (double_minus (performance_now env 6) (performance_now env 5))"
        "tTotalMs r = Math_round (double_minus (performance_now env 7) (performance_now env 0))"
      and s7: "fileHandle s7 = persisted env r (fileHandle s6)" "\<not> isBusy s7" "outbox s7 = outbox s6"
      by blast
    have "mp4Stage env rid zs tr tm merged (s, w) = (Completed r, s7, onmessage (engine env) req w)"
      unfolding mp4Stage_def m Let_def prod.case s1_def [symmetric] s2_def [symmetric]
        s3_def [symmetric] st awaited.case s5_def [symmetric] s6_def [symmetric] f [unfolded m]
      by (rule refl)
    moreover have "fileHandle s6 = fileHandle s" "outbox s6 = outbox s @ [req]"
      using c4 c3 by (simp_all add: s6_def s5_def sr_def core_def)
    moreover have "phase_of_result t = [Some ''mp4'']" "phase req = Some ''mp4''"
      by (simp_all add: t' req_def)
    ultimately show ?thesis
      using p q r s7 rq by auto
  next
    case (Throws e)
    with t have t': "t = Error e (runId req) (phase req)"
      and st: "stage env (workerReencodeMp4 rid mergedBlob) (s3, w)
                   = (RejectedWith e, s4, onmessage (engine env) req w)"
      and c4: "core s4 = core (sr\<lparr>pending := (pending sr)(key_of (runId req) (phase req) := None),
                    settlements := settlements sr @ [Rejected (promises s) e]\<rparr>)"
      by auto
    define s5 where "s5 = (uiLog (nowIso env)
                      (''[RUN '' @ rid @ ''] MP4 encode failed: '' @ error_string e) s4)
                     \<lparr>isBusy := False\<rparr>"
    have "mp4Stage env rid zs tr tm merged (s, w) = (Mp4Failed, s5, onmessage (engine env) req w)"
      unfolding mp4Stage_def m Let_def prod.case s1_def [symmetric] s2_def [symmetric]
        s3_def [symmetric] st awaited.case s5_def [symmetric]
      by (rule refl)
    moreover have "fileHandle s5 = fileHandle s" "outbox s5 = outbox s @ [req]" "\<not> isBusy s5"
      using c4 c3 by (simp_all add: s5_def sr_def core_def)
    moreover have "phase_of_result t = []" "phase req = Some ''mp4''"
      by (simp_all add: t' req_def)
    ultimately show ?thesis
      using p q rq by auto
  qed
qed

lemma result_phases_answer:
  "posted w' = posted w @ pre @ [t] \<Longrightarrow> list_all (\<lambda>m. \<not> terminal m) pre \<Longrightarrow>
   result_phases w w' = phase_of_result t"
proof -
  assume p: "posted w' = posted w @ pre @ [t]" and q: "list_all (\<lambda>m. \<not> terminal m) pre"
  have "drop (length (posted w)) (posted w') = pre @ [t]"
    by (simp add: p)
  then show ?thesis
    unfolding result_phases_def using phases_answer [OF q, of t] by (simp only:)
qed

lemma result_phases_trans:
  "posted w1 = posted w @ xs \<Longrightarrow> posted w2 = posted w1 @ ys \<Longrightarrow>
   result_phases w w2 = result_phases w w1 @ result_phases w1 w2"
  by (simp add: result_phases_def)

lemma mergeStage_summary:
  assumes wl: "workerLoaded s" and wr: "workerRef s"
    and fresh: "\<forall>ev \<in> set (settlements s). promise_of ev < promises s"
  shows "\<exists>e s' w'.
           mergeStage env rid bs zs us tr (s, w) = (e, s', w') \<and> \<not> isBusy s'
         \<and> w' = worker_after_stages (engine env) rid bs w
         \<and> ((\<exists>r req1 req2. e = Completed r
                 \<and> result_phases w w' = [Some ''merge'', Some ''mp4'']
                 \<and> outbox s' = outbox s @ [req1, req2]
                 \<and> phase req1 = Some ''merge'' \<and> phase req2 = Some ''mp4''
                 \<and> fileHandle s' = persisted env r (fileHandle s)
                 \<and> tRecordMs r = tr
                 \<and> tMergeMs r = Math_round (double_minus (performance_now env 4) (performance_now env 3))
                 \<and> tMp4Ms r = Math_round (double_minus (performance_now env 6) (performance_now env 5))
                 \<and> tTotalMs r = Math_round (double_minus (performance_now env 7) (performance_now env 0)))
            \<or> (\<exists>req1 req2. e = Mp4Failed \<and> result_phases w w' = [Some ''merge'']
                 \<and> outbox s' = outbox s @ [req1, req2]
                 \<and> phase req1 = Some ''merge'' \<and> phase req2 = Some ''mp4''
                 \<and> fileHandle s' = fileHandle s)
            \<or> (\<exists>req1. e = MergeFailed \<and> result_phases w w' = []
                 \<and> outbox s' = outbox s @ [req1] \<and> phase req1 = Some ''merge''
                 \<and> fileHandle s' = fileHandle s))"
proof -
  define s1 where "s1 = s\<lparr>segments_shown :=
                    map (\<lambda>(idx, b, u). \<lparr>seg_id = idx + 1, seg_blob = b, seg_url = u\<rparr>)
                        (zip [0..<length bs] (zip bs us))\<rparr>"
  define req where "req = concatRequest rid bs"
  note rq = req_def
  note req_def = req_def [unfolded concatRequest_def]
  define sr where "sr = s1\<lparr>promises := Suc (promises s1),
                     pending := (pending s1)(rid @ '':merge'' \<mapsto> promises s1),
                     outbox := outbox s1 @ [req]\<rparr>"
  have c1: "core s1 = core s"
    by (simp add: s1_def core_def)
  have sub: "workerConcat rid bs s1 = Inr (promises s, sr)"
    using c1 wl wr by (simp add: workerConcat_def Let_def sr_def req_def core_def)
  have "last (outbox sr) = req" and "req_type req = ''concat'' \<or> req_type req = ''reencode''"
    and "pending sr (key_of (runId req) (phase req)) = Some (promises s)"
    and "workerLoaded sr" and "\<forall>ev \<in> set (settlements sr). promise_of ev \<noteq> promises s"
    using c1 wl fresh by (auto simp: sr_def req_def key_of_Some core_def)
  from stage_settles [where submit = "workerConcat rid bs" and s = s1
      and env = env and w = w, OF sub this] obtain s2 pre t where
    p: "posted (onmessage (engine env) req w) = posted w @ pre @ [t]"
    and q: "list_all (\<lambda>m. \<not> terminal m) pre"
    and t: "case fst (onmessage_body (engine env) req w) of
              Returns _ \<Rightarrow>
                (\<exists>mimeType out.
                   t = Result (outputName req) mimeType out (runId req) (phase req)
                 \<and> stage env (workerConcat rid bs) (s1, w)
                     = (Fulfilled (out, mimeType, length out), s2, onmessage (engine env) req w)
                 \<and> core s2 = core (sr\<lparr>pending := (pending sr)(key_of (runId req) (phase req) := None),
                       settlements := settlements sr @ [Resolved (promises s) (out, mimeType, length out)]\<rparr>))
            | Throws e \<Rightarrow>
                t = Error e (runId req) (phase req)
              \<and> stage env (workerConcat rid bs) (s1, w)
                   = (RejectedWith e, s2, onmessage (engine env) req w)
              \<and> core s2 = core (sr\<lparr>pending := (pending sr)(key_of (runId req) (phase req) := None),
                    settlements := settlements sr @ [Rejected (promises s) e]\<rparr>)"
    by blast
  let ?w1 = "onmessage (engine env) req w"
  have ph: "result_phases w ?w1 = phase_of_result t"
    using p q by (rule result_phases_answer)
  have r1: "phase req = Some ''merge''"
    by (simp add: req_def)
  show ?thesis
  proof (cases "fst (onmessage_body (engine env) req w)")
    case (Returns u)
    with t obtain mimeType out where
      t': "t = Result (outputName req) mimeType out (runId req) (phase req)"
      and st: "stage env (workerConcat rid bs) (s1, w)
                     = (Fulfilled (out, mimeType, length out), s2, ?w1)"
      and c2: "core s2 = core (sr\<lparr>pending := (pending sr)(key_of (runId req) (phase req) := None),
                       settlements := settlements sr @ [Resolved (promises s) (out, mimeType, length out)]\<rparr>)"
      by auto
    have wl2: "workerLoaded s2" and wr2: "workerRef s2"
      and fresh2: "\<forall>ev \<in> set (settlements s2). promise_of ev < promises s2"
      and o2: "outbox s2 = outbox s @ [req]" and f2: "fileHandle s2 = fileHandle s"
      using c2 c1 wl wr fresh by (auto simp: sr_def core_def)
    let ?tm = "Math_round (double_minus (performance_now env 4) (performance_now env 3))"
    from mp4Stage_summary [OF wl2 wr2 fresh2, of env rid zs tr ?tm "(out, mimeType, length out)" ?w1]
    obtain e s' w' pre2 t2 req2 where
      m: "mp4Stage env rid zs tr ?tm (out, mimeType, length out) (s2, ?w1) = (e, s', w')"
      and w2: "req2 = reencodeRequest rid (fst (out, mimeType, length out))"
        "w' = onmessage (engine env) req2 ?w1"
      and p2: "posted w' = posted ?w1 @ pre2 @ [t2]" and q2: "list_all (\<lambda>m. \<not> terminal m) pre2"
      and o: "outbox s' = outbox s2 @ [req2]" "phase req2 = Some ''mp4''" "\<not> isBusy s'"
      and d: "(\<exists>r. e = Completed r \<and> phase_of_result t2 = [Some ''mp4'']
                 \<and> fileHandle s' = persisted env r (fileHandle s2)
                 \<and> tRecordMs r = tr \<and> tMergeMs r = ?tm
                 \<and> tMp4Ms r = Math_round (double_minus (performance_now env 6) (performance_now env 5))
                 \<and> tTotalMs r = Math_round (double_minus (performance_now env 7) (performance_now env 0)))
            \<or> (e = Mp4Failed \<and> phase_of_result t2 = [] \<and> fileHandle s' = fileHandle s2)"
      by blast
    have ms: "mergeStage env rid bs zs us tr (s, w) = (e, s', w')"
      unfolding mergeStage_def Let_def prod.case s1_def [symmetric] st awaited.case m
      by (rule refl)
    have "result_phases w w' = result_phases w ?w1 @ result_phases ?w1 w'"
      using p p2 by (rule result_phases_trans)
    then have phs: "result_phases w w' = [Some ''merge''] @ phase_of_result t2"
      using result_phases_answer [OF p2 q2] ph by (simp add: t' req_def)
    have o': "outbox s' = outbox s @ [req, req2]"
      using o o2 by simp
    have "last (posted ?w1) = t"
      by (simp add: p)
    then have wa: "w' = worker_after_stages (engine env) rid bs w"
      using w2 by (simp add: worker_after_stages_def Let_def rq [symmetric] t' )
    from d show ?thesis
    proof
      assume "\<exists>r. e = Completed r \<and> phase_of_result t2 = [Some ''mp4'']
                 \<and> fileHandle s' = persisted env r (fileHandle s2)
                 \<and> tRecordMs r = tr \<and> tMergeMs r = ?tm
                 \<and> tMp4Ms r = Math_round (double_minus (performance_now env 6) (performance_now env 5))
                 \<and> tTotalMs r = Math_round (double_minus (performance_now env 7) (performance_now env 0))"
      then show ?thesis
        using ms phs o' o r1 f2 wa by auto
    next
      assume "e = Mp4Failed \<and> phase_of_result t2 = [] \<and> fileHandle s' = fileHandle s2"
      then show ?thesis
        using ms phs o' o r1 f2 wa by auto
    qed
  next
    case (Throws e)
    with t have t': "t = Error e (runId req) (phase req)"
      and st: "stage env (workerConcat rid bs) (s1, w) = (RejectedWith e, s2, ?w1)"
      and c2: "core s2 = core (sr\<lparr>pending := (pending sr)(key_of (runId req) (phase req) := None),
                    settlements := settlements sr @ [Rejected (promises s) e]\<rparr>)"
      by auto
    define s3 where "s3 = (uiLog (nowIso env)
                      (''[RUN '' @ rid @ ''] Merge failed: '' @ error_string e) s2)
                     \<lparr>isBusy := False\<rparr>"
    have "mergeStage env rid bs zs us tr (s, w) = (MergeFailed, s3, ?w1)"
      unfolding mergeStage_def Let_def prod.case s1_def [symmetric] st awaited.case
        s3_def [symmetric]
      by (rule refl)
    moreover have "fileHandle s3 = fileHandle s" "outbox s3 = outbox s @ [req]" "\<not> isBusy s3"
      using c2 c1 by (simp_all add: s3_def sr_def core_def)
    moreover have "result_phases w ?w1 = []"
      using ph by (simp add: t')
    moreover have "?w1 = worker_after_stages (engine env) rid bs w"
      by (simp add: worker_after_stages_def Let_def rq [symmetric] p t')
    ultimately show ?thesis
      using r1 by auto
  qed
qed

lemma recordSegments_summary:
  "case recordSegments env rid i k (bs, zs, us, s) of
     Inl (e, s') \<Rightarrow>
       core s' = core s \<and> \<not> list_all (\<lambda>j. \<not> isl (recordOneSegment env j)) [i..<i + k]
   | Inr (bs', zs', us', s') \<Rightarrow>
       core s' = core s \<and> list_all (\<lambda>j. \<not> isl (recordOneSegment env j)) [i..<i + k]
       \<and> bs' = bs @ recordedBlobs env i k"
proof (induction k arbitrary: i bs zs us s)
  case 0
  then show ?case by (simp add: recordedBlobs_def)
next
  case (Suc k)
  have u: "[i..<i + Suc k] = i # [Suc i..<Suc i + k]"
    by (simp add: upt_conv_Cons)
  have v: "recordedBlobs env i (Suc k) =
      (case recordOneSegment env i of Inr b \<Rightarrow> b | Inl e \<Rightarrow> []) # recordedBlobs env (Suc i) k"
    unfolding recordedBlobs_def u by simp
  show ?case
  proof (cases "recordOneSegment env i")
    case (Inl e)
    then show ?thesis
      unfolding u by (simp add: Let_def)
  next
    case (Inr b)
    define s1 where "s1 = uiLog (nowIso env)
                (''[RUN '' @ rid @ ''] Recording segment '' @ show_nat (i + 1) @ ''/'' @
                 show_nat segmentCount @ '' for '' @ show_nat segmentDurationMs @ ''ms...'') s"
    define s2 where "s2 = uiLog (nowIso env)
                       (''[RUN '' @ rid @ ''] Segment '' @ show_nat (i + 1) @ '' size: '' @
                        show_nat (length b) @ '' bytes ('' @ formatBytes (length b) @ '')'')
                       (s1\<lparr>urls := Suc (urls s1)\<rparr>)"
    have c: "core s2 = core s"
      by (simp add: s2_def s1_def core_def)
    have r: "recordSegments env rid i (Suc k) (bs, zs, us, s) =
          recordSegments env rid (Suc i) k (bs @ [b], zs @ [length b], us @ [urls s1], s2)"
      unfolding recordSegments.simps Let_def s1_def [symmetric] Inr sum.case s2_def [symmetric]
      by (rule refl)
    from Suc.IH [where i = "Suc i" and bs = "bs @ [b]" and zs = "zs @ [length b]"
        and us = "us @ [urls s1]" and s = s2]
    show ?thesis
      unfolding r u v using Inr c by (auto split: sum.splits)
  qed
qed

lemma runAutomated_summary:
  assumes nb: "\<not> isBusy s" and wl: "workerLoaded s" and wr: "workerRef s"
    and fresh: "\<forall>ev \<in> set (settlements s). promise_of ev < promises s"
  shows "\<exists>e s' w'.
           runAutomated env (s, w) = (e, s', w') \<and> \<not> isBusy s' \<and> w' = worker_after env w
         \<and> ((\<exists>r req1 req2. e = Completed r \<and> recorded env
                 \<and> result_phases w w' = [Some ''merge'', Some ''mp4'']
                 \<and> outbox s' = outbox s @ [req1, req2]
                 \<and> phase req1 = Some ''merge'' \<and> phase req2 = Some ''mp4''
                 \<and> fileHandle s' = persisted env r (fileHandle s)
                 \<and> timed env r)
            \<or> (\<exists>req1 req2. e = Mp4Failed \<and> recorded env
                 \<and> result_phases w w' = [Some ''merge'']
                 \<and> outbox s' = outbox s @ [req1, req2]
                 \<and> phase req1 = Some ''merge'' \<and> phase req2 = Some ''mp4''
                 \<and> fileHandle s' = fileHandle s)
            \<or> (\<exists>req1. e = MergeFailed \<and> recorded env \<and> result_phases w w' = []
                 \<and> outbox s' = outbox s @ [req1] \<and> phase req1 = Some ''merge''
                 \<and> fileHandle s' = fileHandle s)
            \<or> (e = RecordingFailed \<and> \<not> recorded env \<and> w' = w
                 \<and> outbox s' = outbox s \<and> fileHandle s' = fileHandle s))"
proof -
  define rid where "rid = mkRunId env"
  define s1 where "s1 = uiLog (nowIso env)
                    (''[RUN '' @ rid @ ''] Starting automated test. segmentCount='' @
                     show_nat segmentCount @ '', segmentDurationMs='' @
                     show_nat segmentDurationMs @ '', gapMs='' @ show_nat gapMs)
                    (clearAll (s\<lparr>isBusy := True\<rparr>))"
  have c1: "core s1 = core (s\<lparr>isBusy := True\<rparr>)"
    by (simp add: s1_def clearAll_def core_def)
  note rs = recordSegments_summary [where env = env and rid = rid and i = 0
      and k = segmentCount and bs = "[]" and zs = "[]" and us = "[]" and s = s1]
  show ?thesis
  proof (cases "recordSegments env rid 0 segmentCount ([], [], [], s1)")
    case (Inl a)
    obtain e s2 where a: "a = (e, s2)" by (cases a) auto
    from rs have c2: "core s2 = core s1" and nr: "\<not> recorded env"
      unfolding Inl a by (simp_all add: recorded_def)
    define s3 where "s3 = (uiLog (nowIso env) (''[RUN '' @ rid @ ''] Recording failed: '' @ e) s2)
                    \<lparr>isBusy := False\<rparr>"
    have "runAutomated env (s, w) = (RecordingFailed, s3, w)"
      unfolding runAutomated_def prod.case Let_def rid_def [symmetric] s1_def [symmetric]
        Inl a sum.case s3_def [symmetric]
      using nb wl by simp
    moreover have "\<not> isBusy s3" "outbox s3 = outbox s" "fileHandle s3 = fileHandle s"
      using c2 c1 by (simp_all add: s3_def core_def)
    ultimately show ?thesis
      using nr by (simp add: worker_after_def)
  next
    case (Inr b)
    obtain bs zs us s2 where b: "b = (bs, zs, us, s2)" by (cases b) auto
    from rs have c2: "core s2 = core s1" and r: "recorded env"
      and bs: "bs = recordedBlobs env 0 segmentCount"
      unfolding Inr b by (simp_all add: recorded_def)
    let ?tr = "Math_round (double_minus (performance_now env 2) (performance_now env 1))"
    have wl2: "workerLoaded s2" and wr2: "workerRef s2"
      and fresh2: "\<forall>ev \<in> set (settlements s2). promise_of ev < promises s2"
      and o2: "outbox s2 = outbox s" and f2: "fileHandle s2 = fileHandle s"
      using c2 c1 wl wr fresh by (simp_all add: core_def)
    have run: "runAutomated env (s, w) = mergeStage env rid bs zs us ?tr (s2, w)"
      unfolding runAutomated_def prod.case Let_def rid_def [symmetric] s1_def [symmetric]
        Inr b sum.case
      using nb wl by simp
    have wa: "worker_after env w = worker_after_stages (engine env) rid bs w"
      using r by (simp add: worker_after_def rid_def bs)
    from mergeStage_summary [OF wl2 wr2 fresh2, where env = env and rid = rid and bs = bs
        and zs = zs and us = us and tr = ?tr and w = w]
    show ?thesis
      unfolding run wa o2 f2 timed_def using r by fastforce
  qed
qed

subsection \<open>The outcome of an automated run\<close>

text \<open>
  C5: a run that starts (the application is not busy, the worker is loaded) completes with
  its Result Record if and only if every recording resolves and the worker posts a result
  for the merge request and a result for the transcode request. A failed recording ends
  the run before any request is posted, a failed merge before the transcode request is
  posted. The record reaches the log file only from a completed run (when a file is
  selected and the append succeeds); a failed run leaves the file as it was. The busy flag
  is released in every case.
\<close>

theorem result_record_iff_all_stages:
  assumes "\<not> isBusy s" and "workerLoaded s" and "workerRef s"
    and "\<forall>ev \<in> set (settlements s). promise_of ev < promises s"
    and run: "runAutomated env (s, w) = (e, s', w')"
  shows "((\<exists>r. e = Completed r) \<longleftrightarrow>
            recorded env \<and> result_phases w w' = [Some ''merge'', Some ''mp4''])
       \<and> (e = RecordingFailed \<longleftrightarrow> \<not> recorded env)
       \<and> (e = MergeFailed \<longleftrightarrow> recorded env \<and> result_phases w w' = [])
       \<and> (e = Mp4Failed \<longleftrightarrow> recorded env \<and> result_phases w w' = [Some ''merge''])
       \<and> (e = RecordingFailed \<longrightarrow> w' = w \<and> outbox s' = outbox s)
       \<and> (e = MergeFailed \<longrightarrow> length (outbox s') = Suc (length (outbox s)))
       \<and> fileHandle s' =
           (case result_of e of
              Some r \<Rightarrow> persisted env r (fileHandle s)
            | None \<Rightarrow> fileHandle s)
       \<and> \<not> isBusy s'"
  using runAutomated_summary [OF assms(1-4), of env w] unfolding run
  by auto

lemma show_nat_digit:
  "show_nat 0 = ''0''" "show_nat (Suc 0) = ''1''" "show_nat (Suc (Suc 0)) = ''2''"
  "show_nat (Suc (Suc (Suc 0))) = ''3''"
  by code_simp+

lemma sample_blobs: "recordedBlobs sample_run 0 segmentCount = [''x'', ''xx'', ''xxx'', ''xxxx'']"
  by (simp add: recordedBlobs_def segmentCount_def sample_run_def upt_rec numeral_eq_Suc)

lemma sample_inputs:
  "segmentInputs [''x'', ''xx'', ''xxx'', ''xxxx''] =
    [\<lparr>name = ''seg0.webm'', data = ''x''\<rparr>, \<lparr>name = ''seg1.webm'', data = ''xx''\<rparr>,
     \<lparr>name = ''seg2.webm'', data = ''xxx''\<rparr>, \<lparr>name = ''seg3.webm'', data = ''xxxx''\<rparr>]"
  by (simp add: segmentInputs_def show_nat_digit)

lemma sample_recorded: "recorded sample_run"
  by (simp add: recorded_def segmentCount_def sample_run_def upt_rec numeral_eq_Suc)

lemma no_camera_not_recorded: "\<not> recorded no_camera_run"
  by (simp add: recorded_def segmentCount_def no_camera_run_def sample_run_def upt_rec
      numeral_eq_Suc)

lemma sample_merge:
  "onmessage degraded_env (concatRequest ''1700000000000-ab12'' [''x'', ''xx'', ''xxx'', ''xxxx''])
     ready_worker =
   ready_worker\<lparr>execs := [concat_args ''merged.webm''],
     posted := [Loaded, Progress ''frame=1'',
        Result ''merged.webm'' ''video/webm'' ''OUT'' (Some ''1700000000000-ab12'') (Some ''merge'')]\<rparr>"
  unfolding concatRequest_def sample_inputs
  by (simp add: onmessage_def onmessage_body_def ensureLoaded_def andThen_Returns andThen_Throws
      concat_branch_def writeFile_def readFile_def deleteFile_def ffmpeg_exec_def
      degraded_env_def working_exec_def concat_args_def progress_posts_def post_def
      ready_worker_def fun_eq_iff)

lemma sample_mp4:
  "posted (onmessage degraded_env (reencodeRequest ''1700000000000-ab12'' ''OUT'')
     (ready_worker\<lparr>execs := [concat_args ''merged.webm''],
       posted := [Loaded, Progress ''frame=1'',
        Result ''merged.webm'' ''video/webm'' ''OUT'' (Some ''1700000000000-ab12'') (Some ''merge'')]\<rparr>))
   = [Loaded, Progress ''frame=1'',
      Result ''merged.webm'' ''video/webm'' ''OUT'' (Some ''1700000000000-ab12'') (Some ''merge''),
      Progress ''frame=1'',
      Result ''reencoded.mp4'' ''video/mp4'' ''OUT'' (Some ''1700000000000-ab12'') (Some ''mp4'')]"
  unfolding reencodeRequest_def
  by (simp add: onmessage_def onmessage_body_def ensureLoaded_def andThen_Returns andThen_Throws
      reencode_branch_def reencode_args_def writeFile_def readFile_def deleteFile_def
      ffmpeg_exec_def degraded_env_def working_exec_def progress_posts_def post_def
      ready_worker_def endsWith_def)

lemma sample_phases:
  "result_phases ready_worker (worker_after sample_run ready_worker) = [Some ''merge'', Some ''mp4'']"
proof -
  have e: "engine sample_run = degraded_env" "mkRunId sample_run = ''1700000000000-ab12''"
    by (simp_all add: sample_run_def)
  have "posted (worker_after sample_run ready_worker)
   = [Loaded, Progress ''frame=1'',
      Result ''merged.webm'' ''video/webm'' ''OUT'' (Some ''1700000000000-ab12'') (Some ''merge''),
      Progress ''frame=1'',
      Result ''reencoded.mp4'' ''video/mp4'' ''OUT'' (Some ''1700000000000-ab12'') (Some ''mp4'')]"
    unfolding worker_after_def worker_after_stages_def e sample_blobs sample_merge Let_def
    using sample_recorded by (simp add: sample_mp4)
  then show ?thesis
    by (simp add: result_phases_def ready_worker_def)
qed

lemma broken_phases:
  "result_phases ready_worker (worker_after broken_run ready_worker) = []"
proof -
  have e: "engine broken_run = broken_env" "mkRunId broken_run = ''1700000000000-ab12''"
    and b: "recordedBlobs broken_run 0 segmentCount = recordedBlobs sample_run 0 segmentCount"
    and r: "recorded broken_run = recorded sample_run"
    by (simp_all add: broken_run_def sample_run_def recordedBlobs_def recorded_def)
  have "posted (onmessage broken_env
          (concatRequest ''1700000000000-ab12'' [''x'', ''xx'', ''xxx'', ''xxxx'']) ready_worker)
     = [Loaded, Progress ''Conversion failed!'',
        Error ''ErrnoError: FS error'' (Some ''1700000000000-ab12'') (Some ''merge'')]"
    unfolding concatRequest_def sample_inputs
    by (simp add: onmessage_def onmessage_body_def ensureLoaded_def andThen_Returns andThen_Throws
      concat_branch_def writeFile_def readFile_def deleteFile_def ffmpeg_exec_def
      degraded_env_def broken_env_def failing_exec_def concat_args_def progress_posts_def post_def
      ready_worker_def)
  then have "posted (worker_after broken_run ready_worker)
     = [Loaded, Progress ''Conversion failed!'',
        Error ''ErrnoError: FS error'' (Some ''1700000000000-ab12'') (Some ''merge'')]"
    unfolding worker_after_def worker_after_stages_def e b r sample_blobs Let_def
    using sample_recorded by simp
  then show ?thesis
    by (simp add: result_phases_def ready_worker_def)
qed

lemma idle_app_ready:
  "\<not> isBusy idle_app" "workerLoaded idle_app" "workerRef idle_app"
  "\<forall>ev \<in> set (settlements idle_app). promise_of ev < promises idle_app"
  by (simp_all add: idle_app_def)

lemma run_worker:
  assumes "\<not> isBusy s" and "workerLoaded s" and "workerRef s"
    and "\<forall>ev \<in> set (settlements s). promise_of ev < promises s"
  shows "snd (snd (runAutomated env (s, w))) = worker_after env w"
  using runAutomated_summary [OF assms, of env w] by auto

theorem result_record_iff_all_stages_witness:
  "result_of (fst (runAutomated sample_run (idle_app, ready_worker))) \<noteq> None
   \<and> map_option length (fileHandle (fst (snd (runAutomated sample_run (idle_app, ready_worker)))))
       = Some 1
   \<and> fst (runAutomated broken_run (idle_app, ready_worker)) = MergeFailed
   \<and> fileHandle (fst (snd (runAutomated broken_run (idle_app, ready_worker)))) = Some []
   \<and> fst (runAutomated no_camera_run (idle_app, ready_worker)) = RecordingFailed
   \<and> fileHandle (fst (snd (runAutomated no_camera_run (idle_app, ready_worker)))) = Some []"
proof -
  have h: "fileHandle idle_app = Some []"
    by (simp add: idle_app_def)
  obtain e1 s1 w1 where r1: "runAutomated sample_run (idle_app, ready_worker) = (e1, s1, w1)"
    by (cases "runAutomated sample_run (idle_app, ready_worker)") auto
  have w1: "w1 = worker_after sample_run ready_worker"
    using run_worker [OF idle_app_ready, of sample_run ready_worker] by (simp add: r1)
  note t1 = result_record_iff_all_stages [OF idle_app_ready r1]
  from t1 obtain r where e1: "e1 = Completed r"
    using sample_recorded sample_phases unfolding w1 by blast
  from t1 have f1: "fileHandle s1 = Some [r]"
    by (simp add: e1 h persisted_def sample_run_def)
  obtain e2 s2 w2 where r2: "runAutomated broken_run (idle_app, ready_worker) = (e2, s2, w2)"
    by (cases "runAutomated broken_run (idle_app, ready_worker)") auto
  have w2: "w2 = worker_after broken_run ready_worker"
    using run_worker [OF idle_app_ready, of broken_run ready_worker] by (simp add: r2)
  have rb: "recorded broken_run"
    using sample_recorded by (simp add: broken_run_def sample_run_def recorded_def)
  note t2 = result_record_iff_all_stages [OF idle_app_ready r2]
  from t2 have e2: "e2 = MergeFailed"
    using rb broken_phases unfolding w2 by blast
  from t2 have f2: "fileHandle s2 = Some []"
    by (simp add: e2 h)
  obtain e3 s3 w3 where r3: "runAutomated no_camera_run (idle_app, ready_worker) = (e3, s3, w3)"
    by (cases "runAutomated no_camera_run (idle_app, ready_worker)") auto
  note t3 = result_record_iff_all_stages [OF idle_app_ready r3]
  from t3 have e3: "e3 = RecordingFailed"
    using no_camera_not_recorded by blast
  from t3 have f3: "fileHandle s3 = Some []"
    by (simp add: e3 h)
  show ?thesis
    by (simp add: r1 r2 r3 e1 e2 e3 f1 f2 f3)
qed


















subsection \<open>The timings of a completed run\<close>


lemma clock_run_phases:
  "result_phases ready_worker (worker_after (sample_run\<lparr>performance_now := c\<rparr>) ready_worker)
     = [Some ''merge'', Some ''mp4'']"
  "recorded (sample_run\<lparr>performance_now := c\<rparr>)"
proof -
  have "worker_after (sample_run\<lparr>performance_now := c\<rparr>) ready_worker
          = worker_after sample_run ready_worker"
    by (simp add: worker_after_def recorded_def recordedBlobs_def)
  then show "result_phases ready_worker
      (worker_after (sample_run\<lparr>performance_now := c\<rparr>) ready_worker)
     = [Some ''merge'', Some ''mp4'']"
    using sample_phases by simp
  show "recorded (sample_run\<lparr>performance_now := c\<rparr>)"
    using sample_recorded by (simp add: recorded_def)
qed

lemma clock_run_completes:
  "\<exists>r s' w'. runAutomated (sample_run\<lparr>performance_now := c\<rparr>) (idle_app, ready_worker)
      = (Completed r, s', w')"
proof -
  let ?env = "sample_run\<lparr>performance_now := c\<rparr>"
  from runAutomated_summary [OF idle_app_ready, of ?env ready_worker]
  obtain e s' w' where r: "runAutomated ?env (idle_app, ready_worker) = (e, s', w')"
    and w: "w' = worker_after ?env ready_worker"
    and d: "(\<exists>r. e = Completed r) \<or> result_phases ready_worker w' \<noteq> [Some ''merge'', Some ''mp4'']
            \<or> \<not> recorded ?env"
    by fastforce
  from d clock_run_phases [of c] w have "\<exists>r. e = Completed r"
    by simp
  with r show ?thesis by auto
qed




theorem settle_exactly_once_witness:
  "settlements (app_onmessage ''12:00''
      (Result ''merged.webm'' ''video/webm'' ''OUT'' (Some ''r1'') (Some ''merge'')) waiting_app)
     = [Resolved 0 (''OUT'', ''video/webm'', 3)]
   \<and> pending (app_onmessage ''12:00''
      (Result ''merged.webm'' ''video/webm'' ''OUT'' (Some ''r1'') (Some ''merge'')) waiting_app)
        ''r1:merge'' = None
   \<and> settlements_of 0 (deliver ''12:00''
        [Result ''merged.webm'' ''video/webm'' ''OUT'' (Some ''r1'') (Some ''merge''),
         Error ''late'' (Some ''r1'') (Some ''merge'')]
        (app_onmessage ''12:00''
          (Result ''merged.webm'' ''video/webm'' ''OUT'' (Some ''r1'') (Some ''merge''))
          waiting_app))
     = [Resolved 0 (''OUT'', ''video/webm'', 3)]
   \<and> settlements (app_onmessage ''12:00'' (Error ''boom'' (Some ''r1'') (Some ''merge''))
        waiting_app)
     = [Rejected 0 ''boom'']"
proof -
  have k: "key_of (Some ''r1'') (Some ''merge'') = ''r1:merge''"
    by (simp add: key_of_Some)
  have stored: "pending waiting_app (key_of (Some ''r1'') (Some ''merge'')) = Some 0"
    and only: "\<forall>k. k \<noteq> key_of (Some ''r1'') (Some ''merge'') \<longrightarrow> pending waiting_app k \<noteq> Some 0"
    unfolding k by (simp_all add: waiting_app_def idle_app_def)
  have e: "settlements waiting_app = []" "settlements_of 0 waiting_app = []"
    by (simp_all add: waiting_app_def idle_app_def settlements_of_def)
  note t = settle_exactly_once [OF stored only, of "''12:00''" "''merged.webm''" "''video/webm''"
      "''OUT''" "''boom''", unfolded k e]
  from t have "\<forall>later. settlements_of 0 (deliver ''12:00'' later
        (app_onmessage ''12:00''
          (Result ''merged.webm'' ''video/webm'' ''OUT'' (Some ''r1'') (Some ''merge''))
          waiting_app))
     = [] @ [Resolved 0 (''OUT'', ''video/webm'', length ''OUT'')]"
    by blast
  then have "settlements_of 0 (deliver ''12:00''
        [Result ''merged.webm'' ''video/webm'' ''OUT'' (Some ''r1'') (Some ''merge''),
         Error ''late'' (Some ''r1'') (Some ''merge'')]
        (app_onmessage ''12:00''
          (Result ''merged.webm'' ''video/webm'' ''OUT'' (Some ''r1'') (Some ''merge''))
          waiting_app))
     = [] @ [Resolved 0 (''OUT'', ''video/webm'', length ''OUT'')]"
    by (rule spec)
  with t show ?thesis
    by (simp del: deliver.simps)
qed

subsection \<open>Registering under a key that is already pending\<close>

text \<open>
  C2 (as amended): registering never fails because of the key. With the worker present
  and loaded, \<open>workerConcat\<close> and \<open>workerReencodeMp4\<close> create a new promise and store
  its continuation under \<open>runId:merge\<close> and \<open>runId:mp4\<close>, replacing what was stored there
  and settling nothing. The only failure is \<open>FFmpeg worker not loaded.\<close>, thrown when the
  worker is missing or not loaded.
\<close>

theorem registration_replaces:
  "(workerRef s \<and> workerLoaded s \<longrightarrow>
      (\<exists>s'. workerConcat rid segBlobs s = Inr (promises s, s')
          \<and> pending s' = (pending s)(rid @ '':merge'' \<mapsto> promises s)
          \<and> settlements s' = settlements s \<and> promises s' = Suc (promises s))
    \<and> (\<exists>s'. workerReencodeMp4 rid mergedBlob s = Inr (promises s, s')
          \<and> pending s' = (pending s)(rid @ '':mp4'' \<mapsto> promises s)
          \<and> settlements s' = settlements s \<and> promises s' = Suc (promises s)))
   \<and> (\<not> (workerRef s \<and> workerLoaded s) \<longrightarrow>
        workerConcat rid segBlobs s = Inl ''FFmpeg worker not loaded.''
      \<and> workerReencodeMp4 rid mergedBlob s = Inl ''FFmpeg worker not loaded.'')"
  by (auto simp: workerConcat_def workerReencodeMp4_def Let_def)

theorem registration_replaces_witness:
  "fst (projr (workerConcat ''r2'' [''A''] waiting_app)) = 1
   \<and> pending (snd (projr (workerConcat ''r2'' [''A''] waiting_app))) ''r2:merge'' = Some 1
   \<and> pending (snd (projr (workerConcat ''r2'' [''A''] waiting_app))) ''r1:merge'' = Some 0
   \<and> workerReencodeMp4 ''r2'' ''AB'' (idle_app\<lparr>workerLoaded := False\<rparr>)
       = Inl ''FFmpeg worker not loaded.''"
proof -
  have l: "workerRef waiting_app \<and> workerLoaded waiting_app"
    and p: "promises waiting_app = 1" "pending waiting_app ''r1:merge'' = Some 0"
    by (simp_all add: waiting_app_def idle_app_def)
  have n: "\<not> (workerRef (idle_app\<lparr>workerLoaded := False\<rparr>)
                \<and> workerLoaded (idle_app\<lparr>workerLoaded := False\<rparr>))"
    by simp
  from registration_replaces [of waiting_app "''r2''" "[''A'']" "''AB''"] l
  obtain s' where "workerConcat ''r2'' [''A''] waiting_app = Inr (promises waiting_app, s')"
    and "pending s' = (pending waiting_app)(''r2'' @ '':merge'' \<mapsto> promises waiting_app)"
    by blast
  moreover from registration_replaces [of "idle_app\<lparr>workerLoaded := False\<rparr>" "''r2''"
      "[''A'']" "''AB''"] n
  have "workerReencodeMp4 ''r2'' ''AB'' (idle_app\<lparr>workerLoaded := False\<rparr>)
       = Inl ''FFmpeg worker not loaded.''"
    by blast
  ultimately show ?thesis
    using p by simp
qed

text \<open>
  The statement without the amendment fails: with a continuation pending under
  \<open>r1:merge\<close>, registering the key again succeeds, the new promise takes its place, and
  the result that arrives settles the new promise only.
\<close>

theorem registration_replaces_counterexample:
  "pending waiting_app ''r1:merge'' = Some 0
   \<and> \<not> isl (workerConcat ''r1'' [''A''] waiting_app)
   \<and> pending (snd (projr (workerConcat ''r1'' [''A''] waiting_app))) ''r1:merge'' = Some 1
   \<and> settlements (snd (projr (workerConcat ''r1'' [''A''] waiting_app))) = []
   \<and> settlements (app_onmessage ''12:00''
        (Result ''merged.webm'' ''video/webm'' ''OUT'' (Some ''r1'') (Some ''merge''))
        (snd (projr (workerConcat ''r1'' [''A''] waiting_app))))
       = [Resolved 1 (''OUT'', ''video/webm'', 3)]"
  by (simp add: workerConcat_def Let_def waiting_app_def idle_app_def app_onmessage_def
      key_of_Some)

lemma andThen_execs:
  assumes "execs (snd r) = X" and "\<And>x w. execs w = X \<Longrightarrow> execs (snd (f x w)) = X"
  shows "execs (snd (andThen r f)) = X"
proof (cases r)
  case (Pair out w)
  with assms show ?thesis
    by (cases out) (simp_all add: andThen_def)
qed

lemma execs_readFile: "execs (snd (readFile n w)) = execs w"
  by (simp add: readFile_def split: option.splits)

lemma execs_deleteFile: "execs (snd (deleteFile n w)) = execs w"
  by (simp add: deleteFile_def split: option.splits)

lemma execs_ffmpeg_exec: "execs (snd (ffmpeg_exec env argv w)) = execs w @ [argv]"
  by (cases "exec env (files w) argv"; cases "snd (snd (exec env (files w) argv))")
     (simp_all add: ffmpeg_exec_def)

lemma execs_reencode_branch:
  "execs (snd (reencode_branch env req w)) = execs w @ [reencode_args req]"
  unfolding reencode_branch_def Let_def writeFile_def andThen_Returns
  by (intro andThen_execs)
     (simp_all add: execs_ffmpeg_exec execs_readFile execs_deleteFile post_def)

lemma execs_post: "execs (post m w) = execs w"
  by (simp add: post_def)

lemma execs_onmessage_reencode:
  assumes "loaded w" and "req_type req = ''reencode''"
  shows "execs (onmessage env req w) = execs w @ [reencode_args req]"
proof -
  have b: "onmessage_body env req w = reencode_branch env req w"
    using assms by (simp add: body_when_loaded)
  show ?thesis
    using execs_reencode_branch [of env req w]
    by (cases "reencode_branch env req w"; cases "fst (reencode_branch env req w)")
       (simp_all add: onmessage_def b execs_post)
qed

subsection \<open>The arguments of the transcode\<close>

text \<open>
  C7 (as amended): the argument profile of every transcode request is the fixed list
  \<open>-fflags +genpts -fps_mode cfr -r 30 -vf fps=30 -c:v libx264 -preset veryfast -crf 28
  -pix_fmt yuv420p -movflags +faststart -an\<close>, and a loaded worker passes to the engine
  exactly this list between \<open>-i merged.webm\<close> and the output name \<open>reencoded.mp4\<close>.
\<close>

theorem transcode_arguments:
  assumes "workerReencodeMp4 rid mergedBlob s = Inr (c, s')" and "loaded w"
  shows "args (last (outbox s')) =
           [''-fflags'', ''+genpts'', ''-fps_mode'', ''cfr'', ''-r'', ''30'', ''-vf'', ''fps=30'',
            ''-c:v'', ''libx264'', ''-preset'', ''veryfast'', ''-crf'', ''28'',
            ''-pix_fmt'', ''yuv420p'', ''-movflags'', ''+faststart'', ''-an'']
       \<and> execs (onmessage env (last (outbox s')) w) =
           execs w @
           [[''-i'', ''merged.webm'',
             ''-fflags'', ''+genpts'', ''-fps_mode'', ''cfr'', ''-r'', ''30'', ''-vf'', ''fps=30'',
             ''-c:v'', ''libx264'', ''-preset'', ''veryfast'', ''-crf'', ''28'',
             ''-pix_fmt'', ''yuv420p'', ''-movflags'', ''+faststart'', ''-an'',
             ''reencoded.mp4'']]"
proof -
  from assms(1) have l: "last (outbox s') = reencodeRequest rid mergedBlob"
    by (auto simp: workerReencodeMp4_def Let_def reencodeRequest_def split: if_splits)
  have t: "req_type (reencodeRequest rid mergedBlob) = ''reencode''"
    by (simp add: reencodeRequest_def)
  show ?thesis
    unfolding l execs_onmessage_reencode [OF assms(2) t]
    by (simp add: reencodeRequest_def reencode_args_def mp4Args_def)
qed

theorem transcode_arguments_witness:
  "args (last (outbox (snd (projr (workerReencodeMp4 ''r1'' ''AB'' idle_app))))) = mp4Args
   \<and> execs (onmessage broken_env
        (last (outbox (snd (projr (workerReencodeMp4 ''r1'' ''AB'' idle_app))))) ready_worker)
     = [[''-i'', ''merged.webm''] @ mp4Args @ [''reencoded.mp4'']]"
proof -
  obtain s' where r: "workerReencodeMp4 ''r1'' ''AB'' idle_app = Inr (0, s')"
    by (simp add: workerReencodeMp4_def Let_def idle_app_def)
  have l: "loaded ready_worker" and e: "execs ready_worker = []"
    by (simp_all add: ready_worker_def)
  from transcode_arguments [OF r l, of broken_env] show ?thesis
    by (simp add: r e mp4Args_def)
qed

text \<open>
  The statement without the amendment fails: the profile also selects the encoder preset
  \<open>veryfast\<close>, which the listed profile does not have.
\<close>

theorem transcode_arguments_counterexample:
  "args (last (outbox (snd (projr (workerReencodeMp4 ''r1'' ''AB'' idle_app))))) \<noteq> listed_profile
   \<and> ''-preset'' \<in> set (args (last (outbox (snd (projr (workerReencodeMp4 ''r1'' ''AB'' idle_app))))))
   \<and> ''veryfast'' \<in> set (args (last (outbox (snd (projr (workerReencodeMp4 ''r1'' ''AB'' idle_app))))))
   \<and> ''-preset'' \<notin> set listed_profile \<and> ''veryfast'' \<notin> set listed_profile"
  by (simp add: workerReencodeMp4_def Let_def idle_app_def mp4Args_def listed_profile_def)


subsection \<open>The phases of the stage requests\<close>

text \<open>
  C8 (as amended): the requests an automated run posts are, in order, at most one with
  phase \<open>merge\<close> and one with phase \<open>mp4\<close>; \<open>workerConcat\<close> registers its continuation
  under the key \<open>runId:merge\<close> and \<open>workerReencodeMp4\<close> under \<open>runId:mp4\<close>, each the key
  of the request it posts. No other phase is part of a correlation key.
\<close>

theorem phases_of_stage_requests:
  assumes "\<not> isBusy s" and "workerLoaded s" and "workerRef s"
    and "\<forall>ev \<in> set (settlements s). promise_of ev < promises s"
    and run: "runAutomated env (s, w) = (e, s', w')"
  shows "(\<exists>reqs. outbox s' = outbox s @ reqs
            \<and> map phase reqs =
                (if e = RecordingFailed then []
                 else if e = MergeFailed then [Some ''merge'']
                 else [Some ''merge'', Some ''mp4'']))
       \<and> (\<forall>rid segBlobs t c t'. workerConcat rid segBlobs t = Inr (c, t') \<longrightarrow>
             phase (last (outbox t')) = Some ''merge''
           \<and> key_of (runId (last (outbox t'))) (phase (last (outbox t'))) = rid @ '':merge''
           \<and> pending t' (rid @ '':merge'') = Some c)
       \<and> (\<forall>rid mergedBlob t c t'. workerReencodeMp4 rid mergedBlob t = Inr (c, t') \<longrightarrow>
             phase (last (outbox t')) = Some ''mp4''
           \<and> key_of (runId (last (outbox t'))) (phase (last (outbox t'))) = rid @ '':mp4''
           \<and> pending t' (rid @ '':mp4'') = Some c)"
proof -
  have "\<exists>reqs. outbox s' = outbox s @ reqs
            \<and> map phase reqs =
                (if e = RecordingFailed then []
                 else if e = MergeFailed then [Some ''merge'']
                 else [Some ''merge'', Some ''mp4''])"
    using runAutomated_summary [OF assms(1-4), of env w] unfolding run
    by auto
  then show ?thesis
    by (auto simp: workerConcat_def workerReencodeMp4_def Let_def key_of_Some split: if_splits)
qed

theorem phases_of_stage_requests_witness:
  "map phase (outbox (fst (snd (runAutomated sample_run (idle_app, ready_worker)))))
     = [Some ''merge'', Some ''mp4'']
   \<and> map phase (outbox (fst (snd (runAutomated broken_run (idle_app, ready_worker)))))
     = [Some ''merge'']"
proof -
  have o: "outbox idle_app = []"
    by (simp add: idle_app_def)
  obtain e1 s1 w1 where r1: "runAutomated sample_run (idle_app, ready_worker) = (e1, s1, w1)"
    by (cases "runAutomated sample_run (idle_app, ready_worker)") auto
  have "\<exists>r. e1 = Completed r"
    using clock_run_completes [of "performance_now sample_run"] r1 by auto
  with phases_of_stage_requests [OF idle_app_ready r1]
  have 1: "map phase (outbox s1) = [Some ''merge'', Some ''mp4'']"
    unfolding o by auto
  obtain e2 s2 w2 where r2: "runAutomated broken_run (idle_app, ready_worker) = (e2, s2, w2)"
    by (cases "runAutomated broken_run (idle_app, ready_worker)") auto
  have w2: "w2 = worker_after broken_run ready_worker"
    using run_worker [OF idle_app_ready, of broken_run ready_worker] by (simp add: r2)
  have "recorded broken_run"
    using sample_recorded by (simp add: broken_run_def sample_run_def recorded_def)
  then have "e2 = MergeFailed"
    using runAutomated_summary [OF idle_app_ready, of broken_run ready_worker] broken_phases
    unfolding r2 w2 [symmetric] by auto
  with phases_of_stage_requests [OF idle_app_ready r2]
  have 2: "map phase (outbox s2) = [Some ''merge'']"
    unfolding o by auto
  show ?thesis
    by (simp add: r1 r2 1 2)
qed

text \<open>
  The statement without the amendment fails: the transcode request has the phase \<open>mp4\<close>
  and its continuation is stored under \<open>r1:mp4\<close>; nothing is stored under
  \<open>r1:transcode\<close>.
\<close>

theorem phases_of_stage_requests_counterexample:
  "phase (last (outbox (snd (projr (workerReencodeMp4 ''r1'' ''AB'' idle_app))))) = Some ''mp4''
   \<and> pending (snd (projr (workerReencodeMp4 ''r1'' ''AB'' idle_app))) ''r1:mp4'' = Some 0
   \<and> pending (snd (projr (workerReencodeMp4 ''r1'' ''AB'' idle_app))) ''r1:transcode'' = None
   \<and> ''mp4'' \<noteq> ''merge'' \<and> ''mp4'' \<noteq> ''transcode'' \<and> ''mp4'' \<noteq> ''load''"
  by (simp add: workerReencodeMp4_def Let_def idle_app_def)

end
